theory Spec2Isabelle
  imports Main "HOL-Library.Sublist" "HOL-Library.Word" "HOL-Library.Multiset"
    "HOL-Library.List_Lexorder" "HOL-Library.Char_ord"
begin

unbundle bit_operations_syntax


section \<open>Strings and the host/port split\<close>

text \<open>
  Go strings are byte sequences; \<open>string\<close> (a list of 8-bit characters) is used for them.
  \<open>strings.LastIndex(s, ":")\<close> returns the byte index of the last occurrence of the
  separator, or \<open>-1\<close> when there is none. The scan below walks the string once and
  remembers the last position at which the byte was seen.
\<close>

fun LastIndex_scan :: "char \<Rightarrow> string \<Rightarrow> int \<Rightarrow> int \<Rightarrow> int" where
  "LastIndex_scan c [] i found = found"
| "LastIndex_scan c (x # xs) i found = LastIndex_scan c xs (i + 1) (if x = c then i else found)"

definition LastIndex :: "string \<Rightarrow> char \<Rightarrow> int" where
  "LastIndex s c = LastIndex_scan c s 0 (- 1)"

text \<open>
  Modelled from the spec: \<open>driver.DbAuth\<close> is declared outside the given sources; the
  record keeps the five fields that \<open>Export\<close> reads (connection host, credentials,
  target database and character set).
\<close>

record DbAuth =
  Host :: string
  Username :: string
  Password :: string
  Db :: string
  Charset :: string

text \<open>
  Lines 108--116 of \<open>Export\<close>: the slices \<open>cfg.Host[0:p]\<close> and \<open>cfg.Host[p+1:]\<close> are
  \<open>take\<close> and \<open>drop\<close>; the port falls back to \<open>3306\<close> when it is empty.
\<close>

definition host_port :: "string \<Rightarrow> string \<times> string" where
  "host_port h =
     (let p = LastIndex h (CHR '':'');
          (host, port) = (if p > 0 then (take (nat p) h, drop (nat (p + 1)) h) else (h, []))
      in (host, if length port = 0 then ''3306'' else port))"

section \<open>The export procedure\<close>

type_synonym path = string
type_synonym fs = "path \<rightharpoonup> string"

text \<open>
  The two writer arguments of \<open>Export\<close> have type \<open>interface{}\<close>. The type switch
  distinguishes \<open>nil\<close> (the pass is skipped), an \<open>io.Writer\<close> (identified by a number,
  with a flag telling whether the value also implements \<open>io.Closer\<close>), a \<open>string\<close>
  (a file path) and any other value.
\<close>

datatype writer = WNil | WStream nat bool | WPath path | WOther

text \<open>The concrete \<open>io.Writer\<close> a pass writes to: the caller's stream or the created file.\<close>

datatype sink = Stream nat bool | File path

fun closable :: "sink \<Rightarrow> bool" where
  "closable (Stream n c) = c"
| "closable (File p) = True"

datatype error =
    NoTableSelected
  | InvalidCharset
  | FailedToBackup string
  | Unsupported
  | Plain string
  | AlreadyRunning

text \<open>
  Everything the program does to the outside world is recorded as an event, in program
  order. \<open>MkdirAllDirOf v\<close> stands for \<open>os.MkdirAll(filepath.Dir(v), os.ModePerm)\<close>.
  The last five events belong to the request handler and its worker.
\<close>

datatype event =
    LogStarting "string list"
  | MkdirAllDirOf path
  | Create path
  | Created path
  | StdoutPipe
  | CmdStart "string list"
  | Copy sink string
  | CmdWait
  | CloseStdout
  | CloseWriter sink
  | ReadFile path
  | WriteFile path string
  | MkdirAll path
  | SetContentDisposition string
  | LogError error
  | ZipMake path "path list"
  | Remove path

text \<open>
  What the operating system and the subprocess answer during one pass. Each field is the
  outcome of one call of the source: \<open>None\<close> for a nil error, \<open>Some msg\<close> for a failure.
  \<open>dump_out\<close> is what \<open>io.Copy\<close> relayed from the subprocess to the writer,
  \<open>rec_string\<close> the recorded tail of its standard error.
\<close>

record pass_env =
  dir_not_exist :: bool
  mkdir_err :: "string option"
  create_err :: "string option"
  pipe_err :: "string option"
  start_err :: "string option"
  dump_out :: string
  copy_err :: "string option"
  wait_err :: "string option"
  rec_string :: string
  read_err :: "string option"
  write_err :: "(string \<times> string) option"

subsection \<open>The auto-increment strip\<close>

text \<open>
  \<open>cleanRegExp\<close> is \<open>` AUTO_INCREMENT=[0-9]*\s*`\<close>: a literal of sixteen bytes
  (a space, then \<open>AUTO_INCREMENT=\<close>), any number of decimal digits, any number of
  white-space bytes. In Go's syntax \<open>\s\<close> is the class \<open>[\t\n\f\r ]\<close>. Both stars are
  greedy and their classes are disjoint from what may follow, so a match at a position is
  unique: the literal, then the longest run of digits, then the longest run of white space.
\<close>

definition auto_lit :: string where
  "auto_lit = '' AUTO_INCREMENT=''"

definition is_digit :: "char \<Rightarrow> bool" where
  "is_digit c = (c \<in> set ''0123456789'')"

definition is_space :: "char \<Rightarrow> bool" where
  "is_space c = (c = CHR '' '' \<or> c = CHR 0x09 \<or> c = CHR 0x0A \<or> c = CHR 0x0C \<or> c = CHR 0x0D)"

text \<open>What is left of the input after a match that starts at its head.\<close>

definition after_match :: "string \<Rightarrow> string" where
  "after_match s = dropWhile is_space (dropWhile is_digit (drop (length auto_lit) s))"

lemma after_match_shorter: "prefix auto_lit s \<Longrightarrow> length (after_match s) < length s"
proof -
  assume p: "prefix auto_lit s"
  have "length (after_match s) \<le> length (drop (length auto_lit) s)"
    unfolding after_match_def by (meson length_dropWhile_le order_trans)
  moreover have "length auto_lit \<le> length s" using p by (rule prefix_length_le)
  moreover have "0 < length auto_lit" by (simp add: auto_lit_def)
  ultimately show ?thesis by (simp del: length_greater_0_conv)
qed

text \<open>
  \<open>cleanRegExp.ReplaceAll(b, []byte(` `))\<close>: the leftmost match is replaced by one space
  and the search goes on behind it; a byte at which no match starts is copied. The
  replacement holds no \<open>$\<close>, so it is taken literally, and a match is never empty.
\<close>

function cleanRegExp_ReplaceAll :: "string \<Rightarrow> string" where
  "cleanRegExp_ReplaceAll [] = []"
| "cleanRegExp_ReplaceAll (c # cs) =
     (if prefix auto_lit (c # cs) then CHR '' '' # cleanRegExp_ReplaceAll (after_match (c # cs))
      else c # cleanRegExp_ReplaceAll cs)"
  by pat_completeness auto
termination
  by (relation "measure length") (auto dest: after_match_shorter)

text \<open>
  \<open>ResetAutoIncrement\<close>: read the file, replace, write it back. A failed write leaves
  whatever the operating system had written by then (the second component of
  \<open>write_err\<close>).
\<close>

definition ResetAutoIncrement :: "pass_env \<Rightarrow> fs \<Rightarrow> path \<Rightarrow> error option \<times> event list \<times> fs" where
  "ResetAutoIncrement e files f =
     (case read_err e of
        Some m \<Rightarrow> (Some (Plain m), [ReadFile f], files)
      | None \<Rightarrow>
          (case files f of
             None \<Rightarrow> (Some (Plain ''no such file''), [ReadFile f], files)
           | Some b \<Rightarrow>
               (case write_err e of
                  Some (m, left) \<Rightarrow>
                    (Some (Plain m), [ReadFile f, WriteFile f left], files(f \<mapsto> left))
                | None \<Rightarrow>
                    (None, [ReadFile f, WriteFile f (cleanRegExp_ReplaceAll b)],
                     files(f \<mapsto> cleanRegExp_ReplaceAll b)))))"

subsection \<open>One dump pass\<close>

text \<open>The closure \<open>clean\<close>: close the writer when it is an \<open>io.Closer\<close>.\<close>

definition clean :: "sink \<Rightarrow> event list" where
  "clean w = (if closable w then [CloseWriter w] else [])"

text \<open>
  The type switch on the writer (lines 167--193). For a path the parent directory is made
  when \<open>os.Stat\<close> reports that it does not exist, and the file is created (and so
  truncated). \<open>Created\<close> is logged only when \<open>os.Create\<close> succeeded.
\<close>

definition open_writer ::
  "pass_env \<Rightarrow> writer \<Rightarrow> fs \<Rightarrow> (error \<times> event list) + (sink \<times> event list \<times> fs)" where
  "open_writer e writer files =
     (case writer of
        WStream n c \<Rightarrow> Inr (Stream n c, [], files)
      | WPath v \<Rightarrow>
          (let mk = (if dir_not_exist e then [MkdirAllDirOf v] else []) in
           case (if dir_not_exist e then mkdir_err e else None) of
             Some m \<Rightarrow> Inl (FailedToBackup m, mk)
           | None \<Rightarrow>
               (case create_err e of
                  Some m \<Rightarrow> Inl (FailedToBackup m, mk @ [Create v])
                | None \<Rightarrow> Inr (File v, mk @ [Create v, Created v], files(v \<mapsto> []))))
      | _ \<Rightarrow> Inl (Unsupported, []))"

text \<open>What \<open>io.Copy\<close> leaves behind: bytes appended to the file, nothing on disk for a stream.\<close>

definition write_sink :: "sink \<Rightarrow> string \<Rightarrow> fs \<Rightarrow> fs" where
  "write_sink w d files =
     (case w of
        Stream n c \<Rightarrow> files
      | File p \<Rightarrow> files(p \<mapsto> (case files p of None \<Rightarrow> [] | Some b \<Rightarrow> b) @ d))"

text \<open>
  Lines 194--215: pipe, start, copy, wait. Each of the four failures closes the pipe (when
  there is one) and the writer, and returns; success closes the writer, then the pipe.
\<close>

definition run_cmd ::
  "pass_env \<Rightarrow> string list \<Rightarrow> sink \<Rightarrow> fs \<Rightarrow> error option \<times> event list \<times> fs" where
  "run_cmd e args w files =
     (case pipe_err e of
        Some m \<Rightarrow> (Some (FailedToBackup m), [StdoutPipe] @ clean w, files)
      | None \<Rightarrow>
     (case start_err e of
        Some m \<Rightarrow>
          (Some (FailedToBackup m), [StdoutPipe, CmdStart args, CloseStdout] @ clean w, files)
      | None \<Rightarrow>
     (case copy_err e of
        Some m \<Rightarrow>
          (Some (FailedToBackup m),
           [StdoutPipe, CmdStart args, Copy w (dump_out e), CloseStdout] @ clean w,
           write_sink w (dump_out e) files)
      | None \<Rightarrow>
     (case wait_err e of
        Some m \<Rightarrow>
          (Some (Plain (m @ '': '' @ rec_string e)),
           [StdoutPipe, CmdStart args, Copy w (dump_out e), CmdWait, CloseStdout] @ clean w,
           write_sink w (dump_out e) files)
      | None \<Rightarrow>
          (None,
           [StdoutPipe, CmdStart args, Copy w (dump_out e), CmdWait] @ clean w @ [CloseStdout],
           write_sink w (dump_out e) files)))))"

text \<open>
  \<open>onFinish\<close> exists only for a file; it resets the auto-increment counters of the
  structure file (index 0) when asked to.
\<close>

definition onFinish ::
  "pass_env \<Rightarrow> nat \<Rightarrow> bool \<Rightarrow> sink \<Rightarrow> fs \<Rightarrow> error option \<times> event list \<times> fs" where
  "onFinish e index resetAutoIncrement w files =
     (case w of
        Stream n c \<Rightarrow> (None, [], files)
      | File v \<Rightarrow>
          if index > 0 then (None, [], files)
          else if resetAutoIncrement then ResetAutoIncrement e files v
          else (None, [], files))"

text \<open>The body of the loop for one writer that is not nil.\<close>

definition run_pass ::
  "pass_env \<Rightarrow> bool \<Rightarrow> nat \<Rightarrow> string list \<Rightarrow> writer \<Rightarrow> fs \<Rightarrow> error option \<times> event list \<times> fs" where
  "run_pass e resetAutoIncrement index args writer files =
     (case open_writer e writer files of
        Inl (err, evs) \<Rightarrow> (Some err, evs, files)
      | Inr (w, evs, files1) \<Rightarrow>
          (case run_cmd e args w files1 of
             (Some err, evs2, files2) \<Rightarrow> (Some err, evs @ evs2, files2)
           | (None, evs2, files2) \<Rightarrow>
               (case onFinish e index resetAutoIncrement w files2 of
                  (r, evs3, files3) \<Rightarrow> (r, evs @ evs2 @ evs3, files3))))"

subsection \<open>Export\<close>

definition base_args :: "DbAuth \<Rightarrow> string \<Rightarrow> string \<Rightarrow> string list" where
  "base_args cfg host port =
     [''--default-character-set='' @ Charset cfg,
      ''--single-transaction'',
      ''--set-gtid-purged=OFF'',
      ''--no-autocommit'',
      ''--opt'',
      ''-d'',
      ''-h'' @ host,
      ''-P'' @ port,
      ''-u'' @ Username cfg,
      ''-p'' @ Password cfg,
      Db cfg]"

text \<open>The search for the position of \<open>-d\<close>; the variable starts at zero.\<close>

fun typeOptIndex_loop :: "string list \<Rightarrow> nat \<Rightarrow> nat" where
  "typeOptIndex_loop [] index = 0"
| "typeOptIndex_loop (v # vs) index =
     (if v = ''-d'' then index else typeOptIndex_loop vs (index + 1))"

text \<open>
  The loop over \<open>[structWriter, dataWriter]\<close>. The argument slice is shared by the
  passes: the second pass overwrites the flag in place before it builds its command.
\<close>

fun export_loop ::
  "(nat \<Rightarrow> pass_env) \<Rightarrow> bool \<Rightarrow> nat \<Rightarrow> string list \<Rightarrow> (nat \<times> writer) list \<Rightarrow> fs
     \<Rightarrow> error option \<times> event list \<times> fs" where
  "export_loop env rai toi args [] files = (None, [], files)"
| "export_loop env rai toi args ((index, writer) # rest) files =
     (if writer = WNil then export_loop env rai toi args rest files
      else
        (let args' = (if index > 0 then args[toi := ''-t''] else args) in
         case run_pass (env index) rai index args' writer files of
           (Some err, evs, files1) \<Rightarrow> (Some err, evs, files1)
         | (None, evs, files1) \<Rightarrow>
             (case export_loop env rai toi args' rest files1 of
                (r, evs', files2) \<Rightarrow> (r, evs @ evs', files2))))"

text \<open>
  \<open>com.InSlice\<close> is a linear search for an equal element. \<open>Charsets\<close>, the allow-list of
  character sets, is declared outside the given sources and is a parameter here, as is
  the environment \<open>env\<close> that answers the system calls of pass 0 and pass 1.
\<close>

definition InSlice :: "string \<Rightarrow> string list \<Rightarrow> bool" where
  "InSlice v xs = (v \<in> set xs)"

definition Export ::
  "string list \<Rightarrow> (nat \<Rightarrow> pass_env) \<Rightarrow> DbAuth \<Rightarrow> string list \<Rightarrow> writer \<Rightarrow> writer \<Rightarrow> bool list \<Rightarrow> fs
     \<Rightarrow> error option \<times> event list \<times> fs" where
  "Export Charsets env cfg tables structWriter dataWriter resetAutoIncrements files =
     (if length tables = 0 then (Some NoTableSelected, [], files)
      else
        (let resetAutoIncrement = (case resetAutoIncrements of [] \<Rightarrow> False | b # bs \<Rightarrow> b);
             (host, port) = host_port (Host cfg)
         in if \<not> InSlice (Charset cfg) Charsets
            then (Some InvalidCharset, [LogStarting tables], files)
            else
              (let args = base_args cfg host port;
                   typeOptIndex = typeOptIndex_loop args 0;
                   args = args @ tables
               in case export_loop env resetAutoIncrement typeOptIndex args
                         [(0, structWriter), (1, dataWriter)] files of
                    (r, evs, files') \<Rightarrow> (r, LogStarting tables # evs, files'))))"

section \<open>The fingerprint of a request\<close>

text \<open>
  The key under which a job is registered is
  \<open>com.Md5(com.Dump([]interface{}{tables, output, types}, false))\<close>. Both functions
  belong to a library outside the given sources: \<open>Dump\<close> is \<open>json.MarshalIndent\<close> with an
  empty prefix and an indent of two spaces, \<open>Md5\<close> is the hexadecimal MD5 digest of the
  text. They are modelled from the formats they implement (JSON as Go prints it, RFC 1321).
\<close>

subsection \<open>The dump\<close>

definition hex_digit :: "nat \<Rightarrow> char" where
  "hex_digit n = ''0123456789abcdef'' ! n"

text \<open>
  A string in Go's JSON: quotes and backslashes are escaped; line feed, carriage return
  and tab get their short escapes; the other control characters and, as \<open>Marshal\<close>
  escapes HTML, the characters \<open><\<close>, \<open>>\<close> and \<open>&\<close> are written as \<open>\u00\<close> and two
  hexadecimal digits. Bytes from \<open>0x80\<close> on are copied: the text is taken to be valid
  UTF-8 without the line separators \<open>U+2028\<close> and \<open>U+2029\<close>.
\<close>

definition json_char :: "char \<Rightarrow> string" where
  "json_char c =
     (if c = CHR 0x22 then [CHR 0x5C, CHR 0x22]
      else if c = CHR 0x5C then [CHR 0x5C, CHR 0x5C]
      else if c = CHR 0x0A then [CHR 0x5C, CHR ''n'']
      else if c = CHR 0x0D then [CHR 0x5C, CHR ''r'']
      else if c = CHR 0x09 then [CHR 0x5C, CHR ''t'']
      else if (of_char c :: nat) < 32 \<or> c = CHR ''<'' \<or> c = CHR ''>'' \<or> c = CHR ''&''
      then [CHR 0x5C, CHR ''u'', CHR ''0'', CHR ''0'',
            hex_digit (of_char c div 16), hex_digit (of_char c mod 16)]
      else [c])"

definition json_string :: "string \<Rightarrow> string" where
  "json_string s = [CHR 0x22] @ concat (map json_char s) @ [CHR 0x22]"

fun join_with :: "string \<Rightarrow> string list \<Rightarrow> string" where
  "join_with sep [] = []"
| "join_with sep [x] = x"
| "join_with sep (x # y # ys) = x @ sep @ join_with sep (y # ys)"

text \<open>A line break followed by the indentation of nesting depth \<open>d\<close>.\<close>

definition newline :: "nat \<Rightarrow> string" where
  "newline d = CHR 0x0A # replicate (2 * d) (CHR '' '')"

text \<open>
  An array at depth \<open>d\<close> whose elements are already printed. An empty slice is printed as
  \<open>[]\<close>; the lists of the model stand for slices that are not nil (a nil slice would
  be printed as \<open>null\<close>).
\<close>

definition json_array :: "nat \<Rightarrow> string list \<Rightarrow> string" where
  "json_array d xs =
     (if xs = [] then ''[]''
      else ''['' @ newline (d + 1) @ join_with ('','' @ newline (d + 1)) xs @ newline d @ '']'')"

definition Dump :: "string list \<Rightarrow> string \<Rightarrow> string list \<Rightarrow> string" where
  "Dump tables output types =
     json_array 0 [json_array 1 (map json_string tables), json_string output,
                   json_array 1 (map json_string types)]"

subsection \<open>MD5\<close>

definition md5_K :: "32 word list" where
  "md5_K =
     [0xd76aa478, 0xe8c7b756, 0x242070db, 0xc1bdceee,
      0xf57c0faf, 0x4787c62a, 0xa8304613, 0xfd469501,
      0x698098d8, 0x8b44f7af, 0xffff5bb1, 0x895cd7be,
      0x6b901122, 0xfd987193, 0xa679438e, 0x49b40821,
      0xf61e2562, 0xc040b340, 0x265e5a51, 0xe9b6c7aa,
      0xd62f105d, 0x02441453, 0xd8a1e681, 0xe7d3fbc8,
      0x21e1cde6, 0xc33707d6, 0xf4d50d87, 0x455a14ed,
      0xa9e3e905, 0xfcefa3f8, 0x676f02d9, 0x8d2a4c8a,
      0xfffa3942, 0x8771f681, 0x6d9d6122, 0xfde5380c,
      0xa4beea44, 0x4bdecfa9, 0xf6bb4b60, 0xbebfbc70,
      0x289b7ec6, 0xeaa127fa, 0xd4ef3085, 0x04881d05,
      0xd9d4d039, 0xe6db99e5, 0x1fa27cf8, 0xc4ac5665,
      0xf4292244, 0x432aff97, 0xab9423a7, 0xfc93a039,
      0x655b59c3, 0x8f0ccc92, 0xffeff47d, 0x85845dd1,
      0x6fa87e4f, 0xfe2ce6e0, 0xa3014314, 0x4e0811a1,
      0xf7537e82, 0xbd3af235, 0x2ad7d2bb, 0xeb86d391]"

definition md5_s :: "nat list" where
  "md5_s =
     [7, 12, 17, 22, 7, 12, 17, 22, 7, 12, 17, 22, 7, 12, 17, 22,
      5, 9, 14, 20, 5, 9, 14, 20, 5, 9, 14, 20, 5, 9, 14, 20,
      4, 11, 16, 23, 4, 11, 16, 23, 4, 11, 16, 23, 4, 11, 16, 23,
      6, 10, 15, 21, 6, 10, 15, 21, 6, 10, 15, 21, 6, 10, 15, 21]"

definition rotl :: "nat \<Rightarrow> 32 word \<Rightarrow> 32 word" where
  "rotl s w = push_bit s w OR drop_bit (32 - s) w"

type_synonym md5_state = "32 word \<times> 32 word \<times> 32 word \<times> 32 word"

text \<open>Operation \<open>i\<close> of the 64 that process one block \<open>M\<close> of sixteen words.\<close>

definition md5_step :: "32 word list \<Rightarrow> nat \<Rightarrow> md5_state \<Rightarrow> md5_state" where
  "md5_step M i st =
     (case st of (A, B, C, D) \<Rightarrow>
        let (F, g) =
              (if i < 16 then ((B AND C) OR (NOT B AND D), i)
               else if i < 32 then ((D AND B) OR (NOT D AND C), (5 * i + 1) mod 16)
               else if i < 48 then (B XOR C XOR D, (3 * i + 5) mod 16)
               else (C XOR (B OR NOT D), (7 * i) mod 16));
            F' = F + A + md5_K ! i + M ! g
        in (D, B + rotl (md5_s ! i) F', B, C))"

definition md5_compress :: "md5_state \<Rightarrow> 32 word list \<Rightarrow> md5_state" where
  "md5_compress st M =
     (case (st, fold (md5_step M) [0..<64] st) of
        ((a0, b0, c0, d0), (A, B, C, D)) \<Rightarrow> (a0 + A, b0 + B, c0 + C, d0 + D))"

text \<open>Little-endian: bytes to a word, and a length to bytes.\<close>

fun le_word :: "string \<Rightarrow> 32 word" where
  "le_word [] = 0"
| "le_word (c # cs) = of_char c + 256 * le_word cs"

fun le_bytes :: "nat \<Rightarrow> nat \<Rightarrow> string" where
  "le_bytes 0 v = []"
| "le_bytes (Suc n) v = char_of (v mod 256) # le_bytes n (v div 256)"

fun chunks :: "nat \<Rightarrow> 'a list \<Rightarrow> 'a list list" where
  "chunks n [] = []"
| "chunks n (x # xs) =
     (if n = 0 then [x # xs] else take n (x # xs) # chunks n (drop n (x # xs)))"

text \<open>
  Padding: the byte \<open>0x80\<close>, zeros up to 56 modulo 64, the length in bits as eight
  bytes. The padded message is cut into blocks of sixteen words.
\<close>

definition md5_pad :: "string \<Rightarrow> string" where
  "md5_pad m =
     m @ [CHR 0x80] @ replicate ((55 + 64 - length m mod 64) mod 64) (CHR 0x00)
       @ le_bytes 8 (8 * length m)"

definition md5_blocks :: "string \<Rightarrow> 32 word list list" where
  "md5_blocks m = map (\<lambda>blk. map le_word (chunks 4 blk)) (chunks 64 (md5_pad m))"

definition md5_sum :: "string \<Rightarrow> md5_state" where
  "md5_sum m =
     fold (\<lambda>M st. md5_compress st M) (md5_blocks m)
       (0x67452301, 0xefcdab89, 0x98badcfe, 0x10325476)"

text \<open>The four bytes of a word, lowest first, each as two hexadecimal digits.\<close>

definition hex_le :: "32 word \<Rightarrow> string" where
  "hex_le w =
     concat (map (\<lambda>k. [hex_digit (unat (drop_bit (8 * k + 4) w AND 0xf)),
                          hex_digit (unat (drop_bit (8 * k) w AND 0xf))]) [0, 1, 2, 3])"

definition Md5 :: "string \<Rightarrow> string" where
  "Md5 str = (case md5_sum str of (a, b, c, d) \<Rightarrow> hex_le a @ hex_le b @ hex_le c @ hex_le d)"

subsection \<open>The key\<close>

definition cacheKey :: "string list \<Rightarrow> string \<Rightarrow> string list \<Rightarrow> string" where
  "cacheKey tables output types = Md5 (Dump tables output types)"

section \<open>The request handler and its worker\<close>

definition OpExport :: string where
  "OpExport = ''export''"

text \<open>Times are counted in nanoseconds; the zero value of every field is \<open>0\<close>, false or empty.\<close>

record FileInfo =
  Start :: int
  End :: int
  Elapsed :: int
  Path :: string
  Size :: int
  Compressed :: bool
  Error :: string

type_synonym addr = nat

text \<open>
  The shared state. \<open>backgrounds\<close> is the \<open>sync.Map\<close>; under an operation it holds a
  reference to a Go map from cache keys to \<open>*FileInfos\<close>. Go maps and the \<open>FileInfos\<close>
  slices are objects of a store, so that two references to one map see each other's
  updates. \<open>disk\<close> holds the contents of the files.
\<close>

record state =
  backgrounds :: "string \<rightharpoonup> addr"
  go_maps :: "addr \<rightharpoonup> (string \<rightharpoonup> addr)"
  infos :: "addr \<rightharpoonup> FileInfo list"
  next_addr :: addr
  disk :: fs

definition map_at :: "state \<Rightarrow> addr \<Rightarrow> (string \<rightharpoonup> addr)" where
  "map_at st a = (case go_maps st a of None \<Rightarrow> Map.empty | Some m \<Rightarrow> m)"

definition infos_at :: "state \<Rightarrow> addr \<Rightarrow> FileInfo list" where
  "infos_at st a = (case infos st a of None \<Rightarrow> [] | Some l \<Rightarrow> l)"

text \<open>\<open>map[string]*FileInfos{}\<close> and \<open>&FileInfos{}\<close>: a fresh object of the store.\<close>

definition new_map :: "state \<Rightarrow> addr \<times> state" where
  "new_map st =
     (next_addr st,
      st\<lparr>go_maps := (go_maps st)(next_addr st \<mapsto> Map.empty), next_addr := Suc (next_addr st)\<rparr>)"

definition new_infos :: "state \<Rightarrow> addr \<times> state" where
  "new_infos st =
     (next_addr st,
      st\<lparr>infos := (infos st)(next_addr st \<mapsto> []), next_addr := Suc (next_addr st)\<rparr>)"

text \<open>\<open>exports[cacheKey] = fileInfos\<close>, \<open>delete(exports, cacheKey)\<close> and \<open>*fileInfos = append(*fileInfos, fi)\<close>.\<close>

definition map_put :: "addr \<Rightarrow> string \<Rightarrow> addr \<Rightarrow> state \<Rightarrow> state" where
  "map_put exports k v st = st\<lparr>go_maps := (go_maps st)(exports \<mapsto> (map_at st exports)(k \<mapsto> v))\<rparr>"

definition map_delete :: "addr \<Rightarrow> string \<Rightarrow> state \<Rightarrow> state" where
  "map_delete exports k st = st\<lparr>go_maps := (go_maps st)(exports \<mapsto> (map_at st exports)(k := None))\<rparr>"

definition infos_append :: "addr \<Rightarrow> FileInfo \<Rightarrow> state \<Rightarrow> state" where
  "infos_append a fi st = st\<lparr>infos := (infos st)(a \<mapsto> infos_at st a @ [fi])\<rparr>"

text \<open>What other requests can see: the maps that \<open>backgrounds\<close> refers to.\<close>

definition registry :: "state \<Rightarrow> string \<Rightarrow> (string \<rightharpoonup> addr) option" where
  "registry st op = (case backgrounds st op of None \<Rightarrow> None | Some a \<Rightarrow> Some (map_at st a))"

subsection \<open>Library functions\<close>

text \<open>\<open>strings.Split\<close> with a separator of one byte.\<close>

fun Split :: "string \<Rightarrow> char \<Rightarrow> string list" where
  "Split [] sep = [[]]"
| "Split (c # cs) sep =
     (if c = sep then [] # Split cs sep
      else (case Split cs sep of [] \<Rightarrow> [[c]] | x # xs \<Rightarrow> (c # x) # xs))"

text \<open>
  \<open>filepath.Join\<close>: the elements that are not empty, separated by a slash. The cleaning of
  the result (of \<open>..\<close> and of doubled slashes) is left out.
\<close>

definition Join :: "string list \<Rightarrow> path" where
  "Join elems = join_with ''/'' (filter (\<lambda>x. x \<noteq> []) elems)"

text \<open>\<open>com.FileSize\<close>: the size of the file, or an error message.\<close>

definition FileSize :: "fs \<Rightarrow> path \<Rightarrow> int \<times> string option" where
  "FileSize d p = (case d p of None \<Rightarrow> (0, Some ''no such file'') | Some b \<Rightarrow> (int (length b), None))"

subsection \<open>The worker closure\<close>

text \<open>The variables that the closure \<open>worker\<close> captures.\<close>

record job =
  j_cfg :: DbAuth
  j_tables :: "string list"
  j_structWriter :: writer
  j_dataWriter :: writer
  j_sqlFiles :: "path list"
  j_fileInfos :: addr
  j_exports :: addr
  j_cacheKey :: string
  j_zipFile :: path

text \<open>
  What the outside world answers to the worker: the environments of the two passes, the
  two readings of the clock, the outcome of \<open>archiver.Zip.Make\<close> (the archive it wrote,
  or an error and what it may have left on disk), and the text that \<open>com.Dump\<close> prints
  for the manifest.
\<close>

record worker_env =
  pass_envs :: "nat \<Rightarrow> pass_env"
  worker_now :: int
  zip_err :: "string option"
  zip_out :: string
  zip_left :: "string option"
  zip_done :: int
  Dump_infos :: "FileInfo list \<Rightarrow> string"

text \<open>The loop of lines 349--356 on one entry.\<close>

definition measure_info :: "int \<Rightarrow> fs \<Rightarrow> FileInfo \<Rightarrow> FileInfo" where
  "measure_info now d fi =
     (case FileSize d (Path fi) of
        (sz, err) \<Rightarrow>
          fi\<lparr>End := now, Size := sz,
             Error := (case err of None \<Rightarrow> Error fi | Some m \<Rightarrow> m),
             Elapsed := now - Start fi\<rparr>)"

definition remove_all :: "path list \<Rightarrow> fs \<Rightarrow> fs" where
  "remove_all ps d = fold (\<lambda>p d'. d'(p := None)) ps d"

text \<open>
  Lines 336--384. The errors of \<open>os.Remove\<close> and of the manifest's \<open>ioutil.WriteFile\<close> are
  dropped by the source; the calls are recorded and take effect. A panic inside the worker
  is not modelled.
\<close>

definition worker ::
  "string list \<Rightarrow> worker_env \<Rightarrow> job \<Rightarrow> state \<Rightarrow> error option \<times> event list \<times> state" where
  "worker Charsets we j st =
     (case Export Charsets (pass_envs we) (j_cfg j) (j_tables j) (j_structWriter j)
             (j_dataWriter j) [True] (disk st) of
        (Some err, evs, d1) \<Rightarrow> (Some err, evs @ [LogError err], st\<lparr>disk := d1\<rparr>)
      | (None, evs, d1) \<Rightarrow>
          if length (j_sqlFiles j) > 0 then
            (let now = worker_now we;
                 zipFile = j_zipFile j;
                 st1 = st\<lparr>disk := d1,
                          infos := (infos st)(j_fileInfos j \<mapsto>
                                     map (measure_info now d1) (infos_at st (j_fileInfos j)))\<rparr>
             in case zip_err we of
                  Some m \<Rightarrow>
                    (Some (Plain m),
                     evs @ [ZipMake zipFile (j_sqlFiles j), LogError (Plain m)],
                     st1\<lparr>disk := (case zip_left we of None \<Rightarrow> d1 | Some b \<Rightarrow> d1(zipFile \<mapsto> b))\<rparr>)
                | None \<Rightarrow>
                    (let d2 = remove_all (j_sqlFiles j) (d1(zipFile \<mapsto> zip_out we));
                         (sz, err) = FileSize d2 zipFile;
                         fi = \<lparr>Start = now, End = zip_done we, Elapsed = zip_done we - now,
                               Path = zipFile, Size = sz, Compressed = True,
                               Error = (case err of None \<Rightarrow> [] | Some m \<Rightarrow> m)\<rparr>;
                         st2 = infos_append (j_fileInfos j) fi st1;
                         txt = Dump_infos we (infos_at st2 (j_fileInfos j));
                         st3 = st2\<lparr>disk := d2(zipFile @ ''.txt'' \<mapsto> txt)\<rparr>;
                         st4 = map_delete (j_exports j) (j_cacheKey j) st3
                     in (None,
                         evs @ [ZipMake zipFile (j_sqlFiles j)] @ map Remove (j_sqlFiles j)
                           @ [WriteFile (zipFile @ ''.txt'') txt],
                         st4)))
          else (None, evs, st\<lparr>disk := d1\<rparr>))"

subsection \<open>The handler\<close>

text \<open>
  What the handler reads from the web layer: the method, the selected database, the form
  values, the table list kept in the context (if any), the answer of \<open>getTables\<close>, and
  the connection settings.
\<close>

record request =
  IsPost :: bool
  dbName :: string
  form_all :: bool
  ctx_tableList :: "string list option"
  getTables :: "string + string list"
  form_table :: "string list"
  form_view :: "string list"
  form_output :: string
  form_type :: "string list"
  auth :: DbAuth

text \<open>
  What the outside world answers to the handler: the clock (as the text of the Unix time,
  and at the two \<open>FileInfo\<close> starts), the temporary directory and whether the cache
  directory exists, whether the response writer is an \<open>io.Closer\<close>, and the environment
  of a worker that runs inside the request.
\<close>

record handler_env =
  nowTime :: string
  SQLTempDir :: path
  cache_is_dir :: bool
  now_struct :: int
  now_data :: int
  response_closes :: bool
  sync_env :: worker_env

definition TempDir :: "handler_env \<Rightarrow> string \<Rightarrow> path \<times> event list" where
  "TempDir he op =
     (let dir = Join [SQLTempDir he, ''dbmanager/cache'', op]
      in (dir, if cache_is_dir he then [] else [MkdirAll dir]))"

text \<open>Lines 254--276: the table list of the request.\<close>

definition selected_tables :: "request \<Rightarrow> string + string list" where
  "selected_tables rq =
     (if form_all rq then
        (case ctx_tableList rq of Some ts \<Rightarrow> Inr ts | None \<Rightarrow> getTables rq)
      else
        (let tables = form_table rq;
             tables = (if length tables = 1 \<and> length (tables ! 0) > 0
                       then Split (tables ! 0) (CHR '','') else tables);
             views = form_view rq;
             views = (if length views = 1 \<and> length (views ! 0) > 0
                      then tables @ Split (views ! 0) (CHR '','') else views)
         in Inr (if length views > 0 then tables @ views else tables)))"

datatype outcome =
    Redirected
  | FailReturn string
  | Rejected error
  | Finished "error option"
  | Started job

definition new_FileInfo :: "int \<Rightarrow> path \<Rightarrow> FileInfo" where
  "new_FileInfo t p =
     \<lparr>Start = t, End = 0, Elapsed = 0, Path = p, Size = 0, Compressed = False, Error = []\<rparr>"

text \<open>
  \<open>mySQL.Export\<close>. An inline request (\<open>down\<close> or \<open>open\<close>) runs the worker before it
  returns. Any other output starts the worker in the background: the handler stores the
  map and answers, and the worker is run on the state afterwards (\<open>Started\<close> carries its
  closure).
\<close>

definition mySQL_Export ::
  "string list \<Rightarrow> handler_env \<Rightarrow> request \<Rightarrow> state \<Rightarrow> outcome \<times> event list \<times> state" where
  "mySQL_Export Charsets he rq st =
     (if \<not> IsPost rq then (Redirected, [], st)
      else if length (dbName rq) = 0 then (FailReturn ''listDb'', [], st)
      else
        (case selected_tables rq of
           Inl err \<Rightarrow> (FailReturn ''export'', [], st)
         | Inr tables \<Rightarrow>
             (let output = form_output rq;
                  types = form_type rq;
                  key = cacheKey tables output types;
                  (exports, st1) = (case backgrounds st OpExport of
                                      Some old \<Rightarrow> (old, st)
                                    | None \<Rightarrow> new_map st)
              in if map_at st1 exports key \<noteq> None then (Rejected AlreadyRunning, [], st1)
                 else
                   (let (fileInfos, st2) = new_infos st1;
                        st3 = map_put exports key fileInfos st2;
                        (saveDir, mk) = TempDir he ''export'';
                        cfg = (auth rq)\<lparr>Db := dbName rq\<rparr>;
                        zipFile = Join [saveDir, dbName rq @ ''-sql-'' @ nowTime he @ ''.zip'']
                    in if output = ''down'' \<or> output = ''open'' then
                         (let hdr = (if output = ''down''
                                     then [SetContentDisposition
                                             (dbName rq @ ''-sql-'' @ nowTime he @ ''.sql'')]
                                     else []);
                              structWriter = (if InSlice ''struct'' types
                                              then WStream 0 (response_closes he) else WNil);
                              dataWriter = (if InSlice ''data'' types
                                            then WStream 0 (response_closes he) else WNil);
                              j = \<lparr>j_cfg = cfg, j_tables = tables, j_structWriter = structWriter,
                                    j_dataWriter = dataWriter, j_sqlFiles = [],
                                    j_fileInfos = fileInfos, j_exports = exports,
                                    j_cacheKey = key, j_zipFile = zipFile\<rparr>
                          in case worker Charsets (sync_env he) j st3 of
                               (r, evs, st4) \<Rightarrow> (Finished r, mk @ hdr @ evs, st4))
                       else
                         (let structFile = Join [saveDir, dbName rq @ ''-struct-'' @ nowTime he @ ''.sql''];
                              dataFile = Join [saveDir, dbName rq @ ''-data-'' @ nowTime he @ ''.sql''];
                              (sqlFiles, structWriter, st4) =
                                (if InSlice ''struct'' types
                                 then ([structFile], WPath structFile,
                                       infos_append fileInfos (new_FileInfo (now_struct he) structFile) st3)
                                 else ([], WNil, st3));
                              (sqlFiles, dataWriter, st5) =
                                (if InSlice ''data'' types
                                 then (sqlFiles @ [dataFile], WPath dataFile,
                                       infos_append fileInfos (new_FileInfo (now_data he) dataFile) st4)
                                 else (sqlFiles, WNil, st4));
                              j = \<lparr>j_cfg = cfg, j_tables = tables, j_structWriter = structWriter,
                                    j_dataWriter = dataWriter, j_sqlFiles = sqlFiles,
                                    j_fileInfos = fileInfos, j_exports = exports,
                                    j_cacheKey = key, j_zipFile = zipFile\<rparr>;
                              st6 = map_put exports key fileInfos st5;
                              st7 = st6\<lparr>backgrounds := (backgrounds st6)(OpExport \<mapsto> exports)\<rparr>
                          in (Started j, mk, st7))))))"

section \<open>Observations on traces, and sample inputs\<close>

text \<open>The events that concern the subprocess: its start (with the arguments) and its end.\<close>

fun is_proc :: "event \<Rightarrow> bool" where
  "is_proc (CmdStart a) = True"
| "is_proc CmdWait = True"
| "is_proc ev = False"

text \<open>Every file that was created is closed later in the trace.\<close>

fun all_closed :: "event list \<Rightarrow> bool" where
  "all_closed [] = True"
| "all_closed (ev # evs) =
     ((case ev of Created p \<Rightarrow> CloseWriter (File p) \<in> set evs | _ \<Rightarrow> True) \<and> all_closed evs)"

text \<open>
  The arguments the loop is expected to start its subprocesses with, following the loop's
  own bookkeeping of the shared argument slice.
\<close>

fun expected_procs :: "nat \<Rightarrow> string list \<Rightarrow> (nat \<times> writer) list \<Rightarrow> event list" where
  "expected_procs toi args [] = []"
| "expected_procs toi args ((index, writer) # rest) =
     (if writer = WNil then expected_procs toi args rest
      else (let args' = (if index > 0 then args[toi := ''-t''] else args)
            in [CmdStart args', CmdWait] @ expected_procs toi args' rest))"

text \<open>
  Some match of the regular expression in the input is directly followed by the text
  \<open>AUTO_INCREMENT=\<close>. The match swallows the white space in front of that text, so the
  replacement space and the text form a new occurrence of the pattern in the output.
\<close>

function shadowed :: "string \<Rightarrow> bool" where
  "shadowed [] = False"
| "shadowed (c # cs) =
     (if prefix auto_lit (c # cs)
      then prefix (tl auto_lit) (after_match (c # cs)) \<or> shadowed (after_match (c # cs))
      else shadowed cs)"
  by pat_completeness auto
termination
  by (relation "measure length") (auto dest: after_match_shorter)

text \<open>An environment in which every call succeeds, and one whose subprocess exits non-zero.\<close>

definition ok_env :: pass_env where
  "ok_env = \<lparr>dir_not_exist = True, mkdir_err = None, create_err = None, pipe_err = None,
     start_err = None, dump_out = ''CREATE TABLE t (id int) AUTO_INCREMENT=7 CHARSET=utf8;'',
     copy_err = None, wait_err = None, rec_string = [], read_err = None, write_err = None\<rparr>"

definition exit_env :: pass_env where
  "exit_env = ok_env\<lparr>wait_err := Some ''exit status 2'', rec_string := ''Access denied''\<rparr>"

definition cfg0 :: DbAuth where
  "cfg0 = \<lparr>Host = ''db:3307'', Username = ''root'', Password = ''secret'', Db = ''shop'',
     Charset = ''utf8''\<rparr>"

text \<open>
  Sample inputs of the handler: a worker environment in which everything succeeds and one
  in which the archive cannot be made, a handler environment, a request for an inline
  download and one for a background export of the same table, and the state of a process
  that has not exported anything yet.
\<close>

definition we0 :: worker_env where
  "we0 = \<lparr>pass_envs = (\<lambda>i. ok_env), worker_now = 100, zip_err = None, zip_out = ''PK'',
     zip_left = None, zip_done = 120, Dump_infos = (\<lambda>l. ''manifest'')\<rparr>"

definition we_zipfail :: worker_env where
  "we_zipfail = we0\<lparr>zip_err := Some ''no space left on device''\<rparr>"

definition he0 :: handler_env where
  "he0 = \<lparr>nowTime = ''1700000000'', SQLTempDir = ''/tmp'', cache_is_dir = True,
     now_struct = 10, now_data = 11, response_closes = False, sync_env = we0\<rparr>"

definition rq_inline :: request where
  "rq_inline = \<lparr>IsPost = True, dbName = ''shop'', form_all = False, ctx_tableList = None,
     getTables = Inl ''unused'', form_table = [''users''], form_view = [],
     form_output = ''down'', form_type = [''struct''], auth = cfg0\<rparr>"

definition rq_background :: request where
  "rq_background = rq_inline\<lparr>form_output := []\<rparr>"

definition st_init :: state where
  "st_init = \<lparr>backgrounds = Map.empty, go_maps = Map.empty, infos = Map.empty, next_addr = 0,
     disk = Map.empty\<rparr>"

text \<open>
  The closure and the state that the handler leaves behind when it has started the
  background export from the initial state; and the state after that worker has finished.
\<close>

definition job0 :: job where
  "job0 = \<lparr>j_cfg = cfg0, j_tables = [''users''],
     j_structWriter = WPath ''/tmp/dbmanager/cache/export/shop-struct-1700000000.sql'',
     j_dataWriter = WNil,
     j_sqlFiles = [''/tmp/dbmanager/cache/export/shop-struct-1700000000.sql''],
     j_fileInfos = 1, j_exports = 0, j_cacheKey = cacheKey [''users''] [] [''struct''],
     j_zipFile = ''/tmp/dbmanager/cache/export/shop-sql-1700000000.zip''\<rparr>"

definition st_running :: state where
  "st_running = \<lparr>backgrounds = [OpExport \<mapsto> 0],
     go_maps = [0 \<mapsto> [cacheKey [''users''] [] [''struct''] \<mapsto> 1]],
     infos = [1 \<mapsto> [new_FileInfo 10 ''/tmp/dbmanager/cache/export/shop-struct-1700000000.sql'']],
     next_addr = 2, disk = Map.empty\<rparr>"

definition st_idle :: state where
  "st_idle = snd (snd (worker [''utf8''] we0 job0 st_running))"

section \<open>Host and port\<close>

lemma LastIndex_scan_absent: "c \<notin> set s \<Longrightarrow> LastIndex_scan c s i f = f"
  by (induction s arbitrary: i f) auto

lemma LastIndex_scan_last:
  "c \<notin> set q \<Longrightarrow> LastIndex_scan c (a @ c # q) i f = i + int (length a)"
  by (induction a arbitrary: i f) (auto simp: LastIndex_scan_absent)

lemma LastIndex_absent: "c \<notin> set s \<Longrightarrow> LastIndex s c = - 1"
  by (simp add: LastIndex_def LastIndex_scan_absent)

lemma LastIndex_last: "c \<notin> set q \<Longrightarrow> LastIndex (a @ c # q) c = int (length a)"
  by (simp add: LastIndex_def LastIndex_scan_last)

text \<open>
  Claim C10, as amended. Every host string falls under exactly one of three cases. With no
  colon, or with its only colon in front, the whole string is the host and the port is
  \<open>3306\<close>. Otherwise the string is \<open>a:q\<close> with \<open>a\<close> not empty and no colon in \<open>q\<close>; then
  the host is \<open>a\<close> (never the whole string), and the port is \<open>q\<close>, or \<open>3306\<close> when \<open>q\<close> is
  empty.
\<close>

theorem host_port_cases:
  "(CHR '':'' \<notin> set h \<longrightarrow> host_port h = (h, ''3306'')) \<and>
   (\<forall>q. h = CHR '':'' # q \<and> CHR '':'' \<notin> set q \<longrightarrow> host_port h = (h, ''3306'')) \<and>
   (\<forall>a q. h = a @ CHR '':'' # q \<and> a \<noteq> [] \<and> CHR '':'' \<notin> set q \<longrightarrow>
      host_port h = (a, if q = [] then ''3306'' else q))"
proof (intro conjI allI impI)
  assume "CHR '':'' \<notin> set h"
  then show "host_port h = (h, ''3306'')"
    by (simp add: host_port_def LastIndex_absent)
next
  fix q assume "h = CHR '':'' # q \<and> CHR '':'' \<notin> set q"
  then have "LastIndex h (CHR '':'') = 0"
    using LastIndex_last [of "CHR '':''" q "[]"] by simp
  then show "host_port h = (h, ''3306'')"
    by (simp add: host_port_def)
next
  fix a q assume h: "h = a @ CHR '':'' # q \<and> a \<noteq> [] \<and> CHR '':'' \<notin> set q"
  then have "LastIndex h (CHR '':'') = int (length a)"
    using LastIndex_last [of "CHR '':''" q a] by simp
  moreover have "nat (int (length a) + 1) = Suc (length a)" by simp
  ultimately show "host_port h = (a, if q = [] then ''3306'' else q)"
    using h by (simp add: host_port_def Let_def del: of_nat_Suc)
qed

theorem host_port_cases_witness:
  "host_port ''localhost'' = (''localhost'', ''3306'') \<and>
   host_port '':3307'' = ('':3307'', ''3306'') \<and>
   host_port ''db:3307'' = (''db'', ''3307'') \<and>
   host_port ''db:'' = (''db'', ''3306'')"
  using host_port_cases [of "''localhost''"] host_port_cases [of "'':3307''"]
    host_port_cases [of "''db:3307''", THEN conjunct2, THEN conjunct2, THEN spec, THEN spec,
      of "''db''" "''3307''"]
    host_port_cases [of "''db:''", THEN conjunct2, THEN conjunct2, THEN spec, THEN spec,
      of "''db''" "[]"]
  by simp

text \<open>
  Claim C10 as stated fails where the split yields an empty port: for the host string
  \<open>db:\<close> the last colon is at position 2, the port is empty and defaults to \<open>3306\<close>, but
  the host is \<open>db\<close>, not the whole string.
\<close>

theorem host_port_empty_port_counterexample:
  "LastIndex ''db:'' (CHR '':'') = 2 \<and> drop 3 ''db:'' = [] \<and>
   host_port ''db:'' = (''db'', ''3306'') \<and> host_port ''db:'' \<noteq> (''db:'', ''3306'')"
  by (simp add: host_port_def LastIndex_def)

section \<open>The auto-increment strip\<close>

lemma no_space_tl: "CHR '' '' \<notin> set (tl auto_lit)"
  by (simp add: auto_lit_def)

lemma auto_lit_Cons: "auto_lit = CHR '' '' # tl auto_lit"
  by (simp add: auto_lit_def)

text \<open>A text without a space in front of the output was in front of the input.\<close>

lemma prefix_through_ReplaceAll:
  "CHR '' '' \<notin> set p \<Longrightarrow> prefix p (cleanRegExp_ReplaceAll s) \<Longrightarrow> prefix p s"
proof (induction p arbitrary: s)
  case Nil
  then show ?case by simp
next
  case (Cons a p)
  show ?case
  proof (cases s)
    case Nil
    with Cons.prems show ?thesis by simp
  next
    case (Cons c cs)
    show ?thesis
    proof (cases "prefix auto_lit (c # cs)")
      case True
      with Cons.prems Cons show ?thesis by simp
    next
      case False
      with Cons.prems Cons have "a = c" "prefix p (cleanRegExp_ReplaceAll cs)" by simp_all
      moreover have "CHR '' '' \<notin> set p" using Cons.prems by simp
      ultimately show ?thesis using Cons.IH Cons by simp
    qed
  qed
qed

lemma no_lit_after_ReplaceAll: "\<not> shadowed s \<Longrightarrow> \<not> sublist auto_lit (cleanRegExp_ReplaceAll s)"
proof (induction s rule: cleanRegExp_ReplaceAll.induct)
  case 1
  then show ?case by (simp add: auto_lit_def)
next
  case (2 c cs)
  show ?case
  proof (cases "prefix auto_lit (c # cs)")
    case True
    let ?r = "after_match (c # cs)"
    from True "2.prems" have ns: "\<not> prefix (tl auto_lit) ?r" "\<not> shadowed ?r" by simp_all
    from "2.IH"(1) [OF True ns(2)] have ih: "\<not> sublist auto_lit (cleanRegExp_ReplaceAll ?r)" .
    have "\<not> prefix (tl auto_lit) (cleanRegExp_ReplaceAll ?r)"
      using prefix_through_ReplaceAll [OF no_space_tl] ns(1) by blast
    then have "\<not> prefix auto_lit (CHR '' '' # cleanRegExp_ReplaceAll ?r)"
      by (subst auto_lit_Cons) simp
    with ih True show ?thesis by (simp add: sublist_Cons_right)
  next
    case False
    from False "2.prems" have "\<not> shadowed cs" by simp
    from "2.IH"(2) [OF False this] have ih: "\<not> sublist auto_lit (cleanRegExp_ReplaceAll cs)" .
    have "\<not> prefix auto_lit (c # cleanRegExp_ReplaceAll cs)"
    proof
      assume a: "prefix auto_lit (c # cleanRegExp_ReplaceAll cs)"
      then have "c = CHR '' ''" "prefix (tl auto_lit) (cleanRegExp_ReplaceAll cs)"
        by (subst (asm) auto_lit_Cons, simp)+
      then have "prefix (tl auto_lit) cs"
        using prefix_through_ReplaceAll [OF no_space_tl] by blast
      with \<open>c = CHR '' ''\<close> have "prefix auto_lit (c # cs)"
        by (subst auto_lit_Cons) simp
      with False show False by simp
    qed
    with ih False show ?thesis by (simp add: sublist_Cons_right)
  qed
qed

lemma cleanRegExp_ReplaceAll_fixed: "\<not> sublist auto_lit t \<Longrightarrow> cleanRegExp_ReplaceAll t = t"
proof (induction t rule: cleanRegExp_ReplaceAll.induct)
  case 1
  then show ?case by simp
next
  case (2 c cs)
  from "2.prems" have np: "\<not> prefix auto_lit (c # cs)" and ns: "\<not> sublist auto_lit cs"
    by (simp_all add: sublist_Cons_right)
  from "2.IH"(2) [OF np ns] np show ?case by simp
qed

lemma prefix_into_ReplaceAll:
  "CHR '' '' \<notin> set p \<Longrightarrow> prefix p s \<Longrightarrow> prefix p (cleanRegExp_ReplaceAll s)"
proof (induction p arbitrary: s)
  case Nil
  then show ?case by simp
next
  case (Cons a p)
  from Cons.prems(2) obtain s' where s: "s = a # s'" and p: "prefix p s'"
    by (cases s) auto
  from Cons.prems(1) have "a \<noteq> CHR '' ''" by auto
  then have "\<not> prefix auto_lit (a # s')"
    by (subst auto_lit_Cons) simp
  then have "cleanRegExp_ReplaceAll s = a # cleanRegExp_ReplaceAll s'" using s by simp
  moreover have "prefix p (cleanRegExp_ReplaceAll s')" using Cons.IH [OF _ p] Cons.prems(1) by simp
  ultimately show ?case by simp
qed

lemma lit_after_ReplaceAll: "shadowed s \<Longrightarrow> sublist auto_lit (cleanRegExp_ReplaceAll s)"
proof (induction s rule: cleanRegExp_ReplaceAll.induct)
  case 1
  then show ?case by simp
next
  case (2 c cs)
  show ?case
  proof (cases "prefix auto_lit (c # cs)")
    case True
    let ?r = "after_match (c # cs)"
    from True "2.prems" have "prefix (tl auto_lit) ?r \<or> shadowed ?r" by simp
    then show ?thesis
    proof
      assume "prefix (tl auto_lit) ?r"
      then have "prefix (tl auto_lit) (cleanRegExp_ReplaceAll ?r)"
        using prefix_into_ReplaceAll [OF no_space_tl] by blast
      then have "prefix auto_lit (CHR '' '' # cleanRegExp_ReplaceAll ?r)"
        by (subst auto_lit_Cons) simp
      with True show ?thesis by (simp add: sublist_Cons_right)
    next
      assume "shadowed ?r"
      from "2.IH"(1) [OF True this] True show ?thesis by (simp add: sublist_Cons_right)
    qed
  next
    case False
    with "2.prems" have "shadowed cs" by simp
    from "2.IH"(2) [OF False this] False show ?thesis by (simp add: sublist_Cons_right)
  qed
qed

lemma cleanRegExp_ReplaceAll_length: "length (cleanRegExp_ReplaceAll s) \<le> length s"
proof (induction s rule: cleanRegExp_ReplaceAll.induct)
  case 1
  then show ?case by simp
next
  case (2 c cs)
  show ?case
  proof (cases "prefix auto_lit (c # cs)")
    case True
    from "2.IH"(1) [OF True] after_match_shorter [OF True] True show ?thesis by simp
  next
    case False
    from "2.IH"(2) [OF False] False show ?thesis by simp
  qed
qed

lemma cleanRegExp_ReplaceAll_shrinks:
  "sublist auto_lit t \<Longrightarrow> length (cleanRegExp_ReplaceAll t) < length t"
proof (induction t rule: cleanRegExp_ReplaceAll.induct)
  case 1
  then show ?case by (simp add: auto_lit_def)
next
  case (2 c cs)
  show ?case
  proof (cases "prefix auto_lit (c # cs)")
    case True
    have "length auto_lit \<le> length (c # cs)" using True by (rule prefix_length_le)
    moreover have "length (after_match (c # cs)) \<le> length (c # cs) - length auto_lit"
      unfolding after_match_def
      by (metis length_drop length_dropWhile_le order_trans)
    moreover have "length auto_lit = 16" by (simp add: auto_lit_def)
    ultimately have "length (after_match (c # cs)) + 16 \<le> length (c # cs)" by simp
    with cleanRegExp_ReplaceAll_length [of "after_match (c # cs)"] True show ?thesis by simp
  next
    case False
    with "2.prems" have "sublist auto_lit cs" by (simp add: sublist_Cons_right)
    from "2.IH"(2) [OF False this] False show ?thesis by simp
  qed
qed

text \<open>
  Claim C7, as amended. Replacing twice gives what replacing once gives exactly for the
  inputs in which no match is directly followed by the text \<open>AUTO_INCREMENT=\<close>; and
  exactly for those inputs the output holds no occurrence of the pattern's literal (a
  space, then \<open>AUTO_INCREMENT=\<close>).
\<close>

theorem cleanRegExp_ReplaceAll_idempotent_unshadowed:
  "(cleanRegExp_ReplaceAll (cleanRegExp_ReplaceAll s) = cleanRegExp_ReplaceAll s \<longleftrightarrow> \<not> shadowed s) \<and>
   (sublist auto_lit (cleanRegExp_ReplaceAll s) \<longleftrightarrow> shadowed s)"
proof -
  have 1: "sublist auto_lit (cleanRegExp_ReplaceAll s) \<longleftrightarrow> shadowed s"
    using lit_after_ReplaceAll no_lit_after_ReplaceAll by blast
  have "cleanRegExp_ReplaceAll (cleanRegExp_ReplaceAll s) \<noteq> cleanRegExp_ReplaceAll s" if "shadowed s"
    using cleanRegExp_ReplaceAll_shrinks [of "cleanRegExp_ReplaceAll s"] that 1 by auto
  moreover have "cleanRegExp_ReplaceAll (cleanRegExp_ReplaceAll s) = cleanRegExp_ReplaceAll s" if "\<not> shadowed s"
    using cleanRegExp_ReplaceAll_fixed that 1 by blast
  ultimately show ?thesis using 1 by blast
qed

theorem cleanRegExp_ReplaceAll_idempotent_unshadowed_witness:
  "\<not> shadowed '') ENGINE=InnoDB AUTO_INCREMENT=123  DEFAULT CHARSET=utf8;'' \<and>
   cleanRegExp_ReplaceAll '') ENGINE=InnoDB AUTO_INCREMENT=123  DEFAULT CHARSET=utf8;'' =
     '') ENGINE=InnoDB DEFAULT CHARSET=utf8;'' \<and>
   cleanRegExp_ReplaceAll (cleanRegExp_ReplaceAll '') ENGINE=InnoDB AUTO_INCREMENT=123  DEFAULT CHARSET=utf8;'') =
     '') ENGINE=InnoDB DEFAULT CHARSET=utf8;'' \<and>
   \<not> sublist auto_lit '') ENGINE=InnoDB DEFAULT CHARSET=utf8;''"
proof -
  let ?s = "'') ENGINE=InnoDB AUTO_INCREMENT=123  DEFAULT CHARSET=utf8;''"
  let ?t = "'') ENGINE=InnoDB DEFAULT CHARSET=utf8;''"
  have n: "\<not> shadowed ?s"
    by (simp add: auto_lit_def after_match_def is_digit_def is_space_def)
  have v: "cleanRegExp_ReplaceAll ?s = ?t"
    by (simp add: auto_lit_def after_match_def is_digit_def is_space_def)
  note th = cleanRegExp_ReplaceAll_idempotent_unshadowed [of ?s, unfolded v]
  have i: "cleanRegExp_ReplaceAll (cleanRegExp_ReplaceAll ?s) = ?t"
    unfolding v using th [THEN conjunct1, THEN iffD2, OF n] .
  have l: "\<not> sublist auto_lit ?t"
    using th [THEN conjunct2] n by blast
  from n v i l show ?thesis by (intro conjI)
qed

text \<open>
  Claim C7 as stated fails: on two adjacent occurrences the first match swallows the space
  that the second one needs, so one application leaves \<open>AUTO_INCREMENT=6\<close> in the output
  and a second application changes the result again.
\<close>

theorem cleanRegExp_ReplaceAll_not_idempotent_counterexample:
  "cleanRegExp_ReplaceAll '' AUTO_INCREMENT=5 AUTO_INCREMENT=6'' = '' AUTO_INCREMENT=6'' \<and>
   cleanRegExp_ReplaceAll (cleanRegExp_ReplaceAll '' AUTO_INCREMENT=5 AUTO_INCREMENT=6'') = '' '' \<and>
   cleanRegExp_ReplaceAll (cleanRegExp_ReplaceAll '' AUTO_INCREMENT=5 AUTO_INCREMENT=6'') \<noteq>
     cleanRegExp_ReplaceAll '' AUTO_INCREMENT=5 AUTO_INCREMENT=6''"
  by (simp add: auto_lit_def after_match_def is_digit_def is_space_def)

section \<open>The subprocesses of an export\<close>

lemma typeOptIndex_base: "typeOptIndex_loop (base_args cfg host port) 0 = 5"
  by (simp add: base_args_def)

lemma Export_valid:
  assumes "tables \<noteq> []" "Charset cfg \<in> set Charsets"
  shows "Export Charsets env cfg tables sw dw rais files =
     (case export_loop env (case rais of [] \<Rightarrow> False | b # bs \<Rightarrow> b) 5
             (base_args cfg (fst (host_port (Host cfg))) (snd (host_port (Host cfg))) @ tables)
             [(0, sw), (1, dw)] files of
        (r, evs, files') \<Rightarrow> (r, LogStarting tables # evs, files'))"
  using assms
  by (simp add: Export_def InSlice_def Let_def typeOptIndex_base split: prod.splits)

lemma clean_proc: "filter is_proc (clean w) = []"
  by (simp add: clean_def)

lemma run_cmd_proc:
  "run_cmd e args w files = (r, evs, files') \<Longrightarrow>
     prefix (filter is_proc evs) [CmdStart args, CmdWait] \<and>
     (r = None \<longrightarrow> filter is_proc evs = [CmdStart args, CmdWait])"
  by (auto simp: run_cmd_def clean_proc split: option.splits)

lemma ResetAutoIncrement_proc:
  "ResetAutoIncrement e files v = (r, evs, files') \<Longrightarrow> filter is_proc evs = []"
  by (auto simp: ResetAutoIncrement_def split: option.splits)

lemma onFinish_proc:
  "onFinish e i rai w files = (r, evs, files') \<Longrightarrow> filter is_proc evs = []"
  by (auto simp: onFinish_def split: sink.splits if_splits dest: ResetAutoIncrement_proc)

lemma open_writer_proc:
  "open_writer e writer files = Inr (w, evs, files') \<Longrightarrow> filter is_proc evs = []"
  "open_writer e writer files = Inl (err, evs) \<Longrightarrow> filter is_proc evs = []"
  by (auto simp: open_writer_def Let_def split: writer.splits option.splits if_splits)

lemma run_pass_proc:
  assumes "run_pass e rai i args writer files = (r, evs, files')"
  shows "prefix (filter is_proc evs) [CmdStart args, CmdWait] \<and>
     (r = None \<longrightarrow> filter is_proc evs = [CmdStart args, CmdWait])"
proof (cases "open_writer e writer files")
  case (Inl a)
  then obtain err evs0 where a: "open_writer e writer files = Inl (err, evs0)" by (cases a) auto
  with assms have "evs = evs0" "r = Some err" by (simp_all add: run_pass_def)
  with open_writer_proc(2) [OF a] show ?thesis by simp
next
  case (Inr b)
  then obtain w evs0 files0 where b: "open_writer e writer files = Inr (w, evs0, files0)"
    by (cases b) auto
  obtain r1 evs1 files1 where c: "run_cmd e args w files0 = (r1, evs1, files1)"
    by (cases "run_cmd e args w files0") auto
  note p0 = open_writer_proc(1) [OF b]
  note p1 = run_cmd_proc [OF c]
  show ?thesis
  proof (cases r1)
    case (Some err)
    with assms b c have "evs = evs0 @ evs1" "r = Some err" by (simp_all add: run_pass_def)
    with p0 p1 show ?thesis by simp
  next
    case None
    obtain r2 evs2 files2 where d: "onFinish e i rai w files1 = (r2, evs2, files2)"
      by (cases "onFinish e i rai w files1") auto
    with None assms b c have "evs = evs0 @ evs1 @ evs2" by (simp add: run_pass_def)
    with p0 p1 None onFinish_proc [OF d] show ?thesis by simp
  qed
qed

lemma export_loop_two:
  assumes "sw \<noteq> WNil" "dw \<noteq> WNil"
  shows "export_loop env rai toi A [(0, sw), (1, dw)] files =
     (case run_pass (env 0) rai 0 A sw files of
        (Some err, evs, files1) \<Rightarrow> (Some err, evs, files1)
      | (None, evs, files1) \<Rightarrow>
          (case run_pass (env 1) rai 1 (A[toi := ''-t'']) dw files1 of
             (r, evs', files2) \<Rightarrow> (r, evs @ evs', files2)))"
  using assms by (simp add: Let_def split: prod.splits option.splits)

lemma export_loop_proc:
  "export_loop env rai toi args ws files = (r, evs, files') \<Longrightarrow>
     prefix (filter is_proc evs) (expected_procs toi args ws) \<and>
     (r = None \<longrightarrow> filter is_proc evs = expected_procs toi args ws)"
proof (induction ws arbitrary: args files r evs files')
  case Nil
  then show ?case by simp
next
  case (Cons iw ws)
  obtain index writer where iw: "iw = (index, writer)" by (cases iw) auto
  show ?case
  proof (cases "writer = WNil")
    case True
    with Cons.prems iw have "export_loop env rai toi args ws files = (r, evs, files')" by simp
    from Cons.IH [OF this] True iw show ?thesis by simp
  next
    case False
    define args' where "args' = (if index > 0 then args[toi := ''-t''] else args)"
    obtain r0 evs0 files0 where p0: "run_pass (env index) rai index args' writer files = (r0, evs0, files0)"
      by (cases "run_pass (env index) rai index args' writer files") auto
    note q0 = run_pass_proc [OF p0]
    have exp: "expected_procs toi args (iw # ws) = [CmdStart args', CmdWait] @ expected_procs toi args' ws"
      using False iw by (simp add: args'_def Let_def)
    show ?thesis
    proof (cases r0)
      case (Some err)
      with Cons.prems iw False p0 have "evs = evs0" "r = Some err"
        by (simp_all add: args'_def Let_def)
      moreover have "prefix [CmdStart args', CmdWait] ([CmdStart args', CmdWait] @ expected_procs toi args' ws)"
        by simp
      ultimately show ?thesis using q0 unfolding exp by (auto intro: prefix_order.trans)
    next
      case None
      obtain r1 evs1 files1 where p1: "export_loop env rai toi args' ws files0 = (r1, evs1, files1)"
        by (cases "export_loop env rai toi args' ws files0") auto
      with None Cons.prems iw False p0 have "evs = evs0 @ evs1" "r = r1"
        by (simp_all add: args'_def Let_def)
      moreover from None q0 have "filter is_proc evs0 = [CmdStart args', CmdWait]" by simp
      ultimately show ?thesis using Cons.IH [OF p1] unfolding exp by auto
    qed
  qed
qed

lemma Export_proc_events:
  assumes "tables \<noteq> []" and "Charset cfg \<in> set Charsets"
    and "Export Charsets env cfg tables sw dw rais files = (r, evs, files')"
    and "A = base_args cfg (fst (host_port (Host cfg))) (snd (host_port (Host cfg))) @ tables"
    and "E = (if sw = WNil then [] else [CmdStart A, CmdWait]) @
             (if dw = WNil then [] else [CmdStart (A[5 := ''-t'']), CmdWait])"
  shows "prefix (filter is_proc evs) E \<and> (r = None \<longrightarrow> filter is_proc evs = E)"
proof -
  define rai where "rai = (case rais of [] \<Rightarrow> False | b # bs \<Rightarrow> b)"
  obtain r0 evs0 files0 where
    l: "export_loop env rai 5 A [(0, sw), (1, dw)] files = (r0, evs0, files0)"
    by (cases "export_loop env rai 5 A [(0, sw), (1, dw)] files") auto
  have "Export Charsets env cfg tables sw dw rais files =
     (case export_loop env rai 5 A [(0, sw), (1, dw)] files of
        (r, evs, files') \<Rightarrow> (r, LogStarting tables # evs, files'))"
    using assms(1,2) unfolding assms(4) rai_def by (rule Export_valid)
  with assms(3) l have "evs = LogStarting tables # evs0" "r = r0" by simp_all
  moreover have "expected_procs 5 A [(0, sw), (1, dw)] = E"
    by (simp add: assms(5) Let_def)
  ultimately show ?thesis using export_loop_proc [OF l] by simp
qed

text \<open>The definitions that a run on a concrete input unfolds.\<close>

lemmas eval_defs = Export_def InSlice_def Let_def host_port_def LastIndex_def base_args_def
  run_pass_def open_writer_def run_cmd_def onFinish_def clean_def write_sink_def
  ResetAutoIncrement_def ok_env_def exit_env_def cfg0_def

text \<open>
  Claim C2. For a non-empty table list and a character set of the allow-list, the
  subprocesses that \<open>Export\<close> starts and waits for are, in this order, the structure pass
  (when its writer is not nil) and the data pass (when its writer is not nil); a failing
  pass cuts the sequence short, a call that returns no error runs all of it. Every argument
  list is the fixed template (character set, single-transaction, GTID purge off, no
  autocommit, opt, the flag \<open>-d\<close> or \<open>-t\<close>, host, port, user, password, database) followed
  by exactly the caller's table list, in the caller's order.
\<close>

theorem Export_subprocess_args:
  assumes "tables \<noteq> []" and "InSlice (Charset cfg) Charsets"
    and "Export Charsets env cfg tables structWriter dataWriter rais files = (r, evs, files')"
    and "T = (\<lambda>flag. [''--default-character-set='' @ Charset cfg, ''--single-transaction'',
                 ''--set-gtid-purged=OFF'', ''--no-autocommit'', ''--opt'', flag,
                 ''-h'' @ fst (host_port (Host cfg)), ''-P'' @ snd (host_port (Host cfg)),
                 ''-u'' @ Username cfg, ''-p'' @ Password cfg, Db cfg] @ tables)"
    and "E = (if structWriter = WNil then [] else [CmdStart (T ''-d''), CmdWait]) @
             (if dataWriter = WNil then [] else [CmdStart (T ''-t''), CmdWait])"
  shows "prefix (filter is_proc evs) E \<and> (r = None \<longrightarrow> filter is_proc evs = E) \<and>
         (\<forall>a. CmdStart a \<in> set evs \<longrightarrow> (a = T ''-d'' \<or> a = T ''-t'') \<and> drop 11 a = tables)"
proof -
  define A where "A = base_args cfg (fst (host_port (Host cfg))) (snd (host_port (Host cfg))) @ tables"
  have A: "A = T ''-d''" "A[5 := ''-t''] = T ''-t''"
    by (simp_all add: A_def assms(4) base_args_def)
  have E: "E = (if structWriter = WNil then [] else [CmdStart A, CmdWait]) @
             (if dataWriter = WNil then [] else [CmdStart (A[5 := ''-t'']), CmdWait])"
    using A by (simp add: assms(5))
  from assms(2) have "Charset cfg \<in> set Charsets" by (simp add: InSlice_def)
  from Export_proc_events [OF assms(1) this assms(3) A_def E]
  have main: "prefix (filter is_proc evs) E" "r = None \<longrightarrow> filter is_proc evs = E"
    by simp_all
  have "(a = T ''-d'' \<or> a = T ''-t'') \<and> drop 11 a = tables" if "CmdStart a \<in> set evs" for a
  proof -
    from that have "CmdStart a \<in> set (filter is_proc evs)" by simp
    with main(1) have "CmdStart a \<in> set E" by (meson set_mono_prefix subsetD)
    then have "a = T ''-d'' \<or> a = T ''-t''" by (auto simp: assms(5) split: if_splits)
    moreover have "drop 11 (T ''-d'') = tables" "drop 11 (T ''-t'') = tables"
      by (simp_all add: assms(4))
    ultimately show ?thesis by auto
  qed
  with main show ?thesis by blast
qed

theorem Export_subprocess_args_witness:
  "filter is_proc (fst (snd (Export [''latin1'', ''utf8''] (\<lambda>i. ok_env) cfg0 [''users'', ''orders'']
      (WStream 0 False) WNil [True] Map.empty))) =
   [CmdStart [''--default-character-set=utf8'', ''--single-transaction'', ''--set-gtid-purged=OFF'',
      ''--no-autocommit'', ''--opt'', ''-d'', ''-hdb'', ''-P3307'', ''-uroot'', ''-psecret'', ''shop'',
      ''users'', ''orders''], CmdWait]"
proof -
  let ?X = "Export [''latin1'', ''utf8''] (\<lambda>i. ok_env) cfg0 [''users'', ''orders'']
      (WStream 0 False) WNil [True] Map.empty"
  have r: "fst ?X = None" by (simp add: eval_defs)
  have c: "InSlice (Charset cfg0) [''latin1'', ''utf8'']" by (simp add: InSlice_def cfg0_def)
  have x: "?X = (fst ?X, fst (snd ?X), snd (snd ?X))" by simp
  have hp: "host_port (Host cfg0) = (''db'', ''3307'')" by (simp add: host_port_def LastIndex_def cfg0_def)
  from Export_subprocess_args [OF _ c x refl refl] r
  have "filter is_proc (fst (snd ?X)) =
     [CmdStart ([''--default-character-set='' @ Charset cfg0, ''--single-transaction'',
                 ''--set-gtid-purged=OFF'', ''--no-autocommit'', ''--opt'', ''-d'',
                 ''-h'' @ fst (host_port (Host cfg0)), ''-P'' @ snd (host_port (Host cfg0)),
                 ''-u'' @ Username cfg0, ''-p'' @ Password cfg0, Db cfg0] @ [''users'', ''orders'']), CmdWait]"
    by simp
  then show ?thesis unfolding hp by (simp add: cfg0_def)
qed

text \<open>
  Claim C3. With an empty table list \<open>Export\<close> returns the error at once: no event at all
  and the files untouched. With a character set outside the allow-list it returns the
  error after the one log line that announces the backup: no directory or file is made,
  no pipe or subprocess is started, no writer is written to or closed, and the files are
  untouched.
\<close>

theorem Export_validation:
  "(tables = [] \<longrightarrow>
      Export Charsets env cfg tables structWriter dataWriter rais files =
        (Some NoTableSelected, [], files)) \<and>
   (tables \<noteq> [] \<and> \<not> InSlice (Charset cfg) Charsets \<longrightarrow>
      Export Charsets env cfg tables structWriter dataWriter rais files =
        (Some InvalidCharset, [LogStarting tables], files))"
  by (simp add: Export_def Let_def split: prod.splits)

theorem Export_validation_witness:
  "Export [''utf8''] (\<lambda>i. ok_env) cfg0 [] (WStream 0 False) WNil [True] Map.empty =
     (Some NoTableSelected, [], Map.empty) \<and>
   \<not> InSlice ''klingon'' [''utf8''] \<and>
   Export [''utf8''] (\<lambda>i. ok_env) (cfg0\<lparr>Charset := ''klingon''\<rparr>) [''users'']
       (WPath ''/tmp/s.sql'') WNil [True] Map.empty =
     (Some InvalidCharset, [LogStarting [''users'']], Map.empty)"
  using Export_validation [of "[]" "[''utf8'']" "\<lambda>i. ok_env" cfg0 "WStream 0 False" WNil "[True]" Map.empty]
    Export_validation [of "[''users'']" "[''utf8'']" "\<lambda>i. ok_env" "cfg0\<lparr>Charset := ''klingon''\<rparr>"
       "WPath ''/tmp/s.sql''" WNil "[True]" Map.empty]
  by (simp add: InSlice_def)

text \<open>
  Claim C5. When both writers are given, the subprocess events of \<open>Export\<close> are a prefix
  of: start of the structure pass, its wait, start of the data pass, its wait; and all
  four when no error is returned. So the data pass starts only after the structure pass
  has been waited for. The two argument lists have the same length and agree everywhere
  but at position 5, which holds \<open>-d\<close> for the structure pass and \<open>-t\<close> for the data pass.
\<close>

theorem Export_two_passes:
  assumes "tables \<noteq> []" and "InSlice (Charset cfg) Charsets"
    and "structWriter \<noteq> WNil" and "dataWriter \<noteq> WNil"
    and "Export Charsets env cfg tables structWriter dataWriter rais files = (r, evs, files')"
    and "A = base_args cfg (fst (host_port (Host cfg))) (snd (host_port (Host cfg))) @ tables"
    and "B = A[5 := ''-t'']"
  shows "prefix (filter is_proc evs) [CmdStart A, CmdWait, CmdStart B, CmdWait] \<and>
         (r = None \<longrightarrow> filter is_proc evs = [CmdStart A, CmdWait, CmdStart B, CmdWait]) \<and>
         A ! 5 = ''-d'' \<and> B ! 5 = ''-t'' \<and> length B = length A \<and>
         (\<forall>i < length A. i \<noteq> 5 \<longrightarrow> B ! i = A ! i)"
proof -
  define rai where "rai = (case rais of [] \<Rightarrow> False | b # bs \<Rightarrow> b)"
  obtain r0 evs0 files0 where p0: "run_pass (env 0) rai 0 A structWriter files = (r0, evs0, files0)"
    by (cases "run_pass (env 0) rai 0 A structWriter files") auto
  obtain r1 evs1 files1 where p1: "run_pass (env 1) rai 1 B dataWriter files0 = (r1, evs1, files1)"
    by (cases "run_pass (env 1) rai 1 B dataWriter files0") auto
  note q0 = run_pass_proc [OF p0]
  note q1 = run_pass_proc [OF p1]
  have ex: "Export Charsets env cfg tables structWriter dataWriter rais files =
     (case export_loop env rai 5 A [(0, structWriter), (1, dataWriter)] files of
        (r, evs, files') \<Rightarrow> (r, LogStarting tables # evs, files'))"
    using assms(1,2) unfolding assms(6) rai_def InSlice_def by (rule Export_valid)
  note ex2 = ex [unfolded export_loop_two [OF assms(3,4)]]
  have first: "prefix (filter is_proc evs) [CmdStart A, CmdWait, CmdStart B, CmdWait] \<and>
         (r = None \<longrightarrow> filter is_proc evs = [CmdStart A, CmdWait, CmdStart B, CmdWait])"
  proof (cases r0)
    case (Some err)
    with assms(5) ex2 p0 have "evs = LogStarting tables # evs0" "r = Some err"
      by simp_all
    moreover have "prefix [CmdStart A, CmdWait] [CmdStart A, CmdWait, CmdStart B, CmdWait]"
      by simp
    ultimately show ?thesis using q0 by (auto intro: prefix_order.trans)
  next
    case None
    with assms(5,7) ex2 p0 p1 have "evs = LogStarting tables # evs0 @ evs1" "r = r1"
      by simp_all
    moreover from None q0 have "filter is_proc evs0 = [CmdStart A, CmdWait]" by simp
    ultimately show ?thesis using q1 by auto
  qed
  have "length A \<ge> 11" by (simp add: assms(6) base_args_def)
  moreover have "A ! 5 = ''-d''" by (simp add: assms(6) base_args_def)
  ultimately show ?thesis using first by (simp add: assms(7))
qed

theorem Export_two_passes_witness:
  "filter is_proc (fst (snd (Export [''utf8''] (\<lambda>i. ok_env) cfg0 [''users'', ''orders'']
      (WPath ''/tmp/s.sql'') (WPath ''/tmp/d.sql'') [True] Map.empty))) =
   [CmdStart [''--default-character-set=utf8'', ''--single-transaction'', ''--set-gtid-purged=OFF'',
      ''--no-autocommit'', ''--opt'', ''-d'', ''-hdb'', ''-P3307'', ''-uroot'', ''-psecret'', ''shop'',
      ''users'', ''orders''], CmdWait,
    CmdStart [''--default-character-set=utf8'', ''--single-transaction'', ''--set-gtid-purged=OFF'',
      ''--no-autocommit'', ''--opt'', ''-t'', ''-hdb'', ''-P3307'', ''-uroot'', ''-psecret'', ''shop'',
      ''users'', ''orders''], CmdWait]"
proof -
  let ?X = "Export [''utf8''] (\<lambda>i. ok_env) cfg0 [''users'', ''orders'']
      (WPath ''/tmp/s.sql'') (WPath ''/tmp/d.sql'') [True] Map.empty"
  have r: "fst ?X = None" by (simp add: eval_defs)
  have c: "InSlice (Charset cfg0) [''utf8'']" by (simp add: InSlice_def cfg0_def)
  have x: "?X = (fst ?X, fst (snd ?X), snd (snd ?X))" by simp
  have hp: "host_port (Host cfg0) = (''db'', ''3307'')" by (simp add: host_port_def LastIndex_def cfg0_def)
  from Export_two_passes [OF _ c _ _ x refl refl] r
  have "filter is_proc (fst (snd ?X)) =
     [CmdStart (base_args cfg0 (fst (host_port (Host cfg0))) (snd (host_port (Host cfg0))) @ [''users'', ''orders'']),
      CmdWait,
      CmdStart ((base_args cfg0 (fst (host_port (Host cfg0))) (snd (host_port (Host cfg0))) @ [''users'', ''orders''])[5 := ''-t'']),
      CmdWait]"
    by simp
  then show ?thesis unfolding hp by (simp add: cfg0_def base_args_def)
qed

section \<open>Closing the writers\<close>

lemma all_closed_append: "all_closed a \<Longrightarrow> all_closed b \<Longrightarrow> all_closed (a @ b)"
  by (induction a) (auto split: event.splits)

lemma all_closed_no_Created: "\<forall>p. Created p \<notin> set a \<Longrightarrow> all_closed a"
  by (induction a) (auto split: event.splits)

lemma run_cmd_closes:
  "closable w \<Longrightarrow> CloseWriter w \<in> set (fst (snd (run_cmd e args w files)))"
  by (simp add: run_cmd_def clean_def split: option.splits)

lemma run_cmd_no_Created: "Created p \<notin> set (fst (snd (run_cmd e args w files)))"
  by (simp add: run_cmd_def clean_def split: option.splits)

lemma onFinish_no_Created: "Created p \<notin> set (fst (snd (onFinish e i rai w files)))"
  by (simp add: onFinish_def ResetAutoIncrement_def split: option.splits sink.splits prod.splits)

lemma open_writer_Inl_no_Created:
  "open_writer e writer files = Inl (err, evs) \<Longrightarrow> Created p \<notin> set evs"
  by (auto simp: open_writer_def Let_def split: writer.splits option.splits if_splits)

lemma open_writer_Inr_Created:
  "open_writer e writer files = Inr (w, evs, files1) \<Longrightarrow> Created p \<in> set evs \<Longrightarrow> w = File p"
  by (auto simp: open_writer_def Let_def split: writer.splits option.splits if_splits)

lemma open_writer_Inr_shape:
  "open_writer e writer files = Inr (w, evs, files1) \<Longrightarrow>
     evs = [] \<or> (\<exists>p pre. w = File p \<and> evs = pre @ [Create p, Created p] \<and> (\<forall>q. Created q \<notin> set pre))"
  by (auto simp: open_writer_def Let_def split: writer.splits option.splits if_splits)

lemma run_pass_closes:
  assumes "run_pass e rai i args writer files = (r, evs, files')"
    and "open_writer e writer files = Inr (w, evs0, files0)"
    and "closable w"
  shows "CloseWriter w \<in> set evs"
proof -
  obtain r1 evs1 files1 where c: "run_cmd e args w files0 = (r1, evs1, files1)"
    by (cases "run_cmd e args w files0") auto
  from run_cmd_closes [OF assms(3), of e args files0] c have "CloseWriter w \<in> set evs1" by simp
  moreover from assms(1,2) c have "set evs1 \<subseteq> set evs"
    by (auto simp: run_pass_def split: option.splits prod.splits)
  ultimately show ?thesis by blast
qed

lemma run_pass_all_closed:
  assumes "run_pass e rai i args writer files = (r, evs, files')"
  shows "all_closed evs"
proof (cases "open_writer e writer files")
  case (Inl a)
  then obtain err evs0 where a: "open_writer e writer files = Inl (err, evs0)" by (cases a) auto
  with assms have "evs = evs0" by (simp add: run_pass_def)
  with open_writer_Inl_no_Created [OF a] show ?thesis by (simp add: all_closed_no_Created)
next
  case (Inr b)
  then obtain w evs0 files0 where b: "open_writer e writer files = Inr (w, evs0, files0)"
    by (cases b) auto
  obtain r1 evs1 files1 where c: "run_cmd e args w files0 = (r1, evs1, files1)"
    by (cases "run_cmd e args w files0") auto
  obtain rest where evs: "evs = evs0 @ evs1 @ rest" "\<forall>p. Created p \<notin> set rest"
  proof (cases r1)
    case (Some err)
    with assms b c have "evs = evs0 @ evs1 @ []" by (simp add: run_pass_def)
    then show ?thesis using that by simp
  next
    case None
    with assms b c have "evs = evs0 @ evs1 @ fst (snd (onFinish e i rai w files1))"
      by (simp add: run_pass_def split: prod.splits)
    then show ?thesis using that onFinish_no_Created by blast
  qed
  have tail: "all_closed (evs1 @ rest)"
    using run_cmd_no_Created [of _ e args w files0] c evs(2)
    by (intro all_closed_no_Created) auto
  from open_writer_Inr_shape [OF b] show ?thesis
  proof
    assume "evs0 = []"
    with tail evs show ?thesis by simp
  next
    assume "\<exists>p pre. w = File p \<and> evs0 = pre @ [Create p, Created p] \<and> (\<forall>q. Created q \<notin> set pre)"
    then obtain p pre where w: "w = File p" and e0: "evs0 = pre @ [Create p, Created p]"
      and pre: "\<forall>q. Created q \<notin> set pre" by blast
    from run_cmd_closes [of w e args files0] w c have "CloseWriter (File p) \<in> set evs1" by simp
    then have "all_closed ([Create p, Created p] @ evs1 @ rest)" using tail by simp
    with all_closed_no_Created [OF pre] have "all_closed (pre @ [Create p, Created p] @ evs1 @ rest)"
      by (rule all_closed_append)
    with evs e0 show ?thesis by simp
  qed
qed

lemma export_loop_all_closed:
  "export_loop env rai toi args ws files = (r, evs, files') \<Longrightarrow> all_closed evs"
proof (induction ws arbitrary: args files r evs files')
  case Nil
  then show ?case by simp
next
  case (Cons iw ws)
  obtain index writer where iw: "iw = (index, writer)" by (cases iw) auto
  show ?case
  proof (cases "writer = WNil")
    case True
    with Cons.prems iw have "export_loop env rai toi args ws files = (r, evs, files')" by simp
    from Cons.IH [OF this] show ?thesis .
  next
    case False
    define args' where "args' = (if index > 0 then args[toi := ''-t''] else args)"
    obtain r0 evs0 files0 where p0: "run_pass (env index) rai index args' writer files = (r0, evs0, files0)"
      by (cases "run_pass (env index) rai index args' writer files") auto
    note q0 = run_pass_all_closed [OF p0]
    show ?thesis
    proof (cases r0)
      case (Some err)
      with Cons.prems iw False p0 have "evs = evs0" by (simp add: args'_def Let_def)
      with q0 show ?thesis by simp
    next
      case None
      obtain r1 evs1 files1 where p1: "export_loop env rai toi args' ws files0 = (r1, evs1, files1)"
        by (cases "export_loop env rai toi args' ws files0") auto
      with None Cons.prems iw False p0 have "evs = evs0 @ evs1" by (simp add: args'_def Let_def)
      with q0 Cons.IH [OF p1] show ?thesis by (simp add: all_closed_append)
    qed
  qed
qed

lemma Export_all_closed:
  "all_closed (fst (snd (Export Charsets env cfg tables sw dw rais files)))"
proof (cases "tables \<noteq> [] \<and> Charset cfg \<in> set Charsets")
  case False
  then show ?thesis
    by (auto simp: Export_def Let_def InSlice_def split: prod.splits)
next
  case True
  define rai where "rai = (case rais of [] \<Rightarrow> False | b # bs \<Rightarrow> b)"
  define A where "A = base_args cfg (fst (host_port (Host cfg))) (snd (host_port (Host cfg))) @ tables"
  obtain r0 evs0 files0 where
    l: "export_loop env rai 5 A [(0, sw), (1, dw)] files = (r0, evs0, files0)"
    by (cases "export_loop env rai 5 A [(0, sw), (1, dw)] files") auto
  have "Export Charsets env cfg tables sw dw rais files =
     (case export_loop env rai 5 A [(0, sw), (1, dw)] files of
        (r, evs, files') \<Rightarrow> (r, LogStarting tables # evs, files'))"
    using True unfolding A_def rai_def by (intro Export_valid) auto
  with l have "fst (snd (Export Charsets env cfg tables sw dw rais files)) = LogStarting tables # evs0"
    by simp
  with export_loop_all_closed [OF l] show ?thesis by simp
qed

text \<open>
  Claim C9. A pass whose writer was opened closes it on each of its ways out (failure to
  make the pipe, to start the subprocess, to copy, a failing wait, and success), provided
  the writer can be closed; and in the trace of any call of \<open>Export\<close> every created file
  is closed later on.
\<close>

theorem writers_closed_on_every_exit:
  "(run_pass e rai i args writer files = (r, evs, files') \<and>
    open_writer e writer files = Inr (w, evs0, files0) \<and> closable w
      \<longrightarrow> CloseWriter w \<in> set evs) \<and>
   all_closed (fst (snd (Export Charsets env cfg tables structWriter dataWriter rais files2)))"
  using run_pass_closes Export_all_closed by blast

theorem writers_closed_on_every_exit_witness:
  "CloseWriter (File ''/tmp/s.sql'') \<in>
     set (fst (snd (run_pass exit_env True 0 [''-d'', ''shop''] (WPath ''/tmp/s.sql'') Map.empty))) \<and>
   fst (run_pass exit_env True 0 [''-d'', ''shop''] (WPath ''/tmp/s.sql'') Map.empty) =
     Some (Plain ''exit status 2: Access denied'') \<and>
   all_closed (fst (snd (Export [''utf8''] (\<lambda>i. exit_env) cfg0 [''users'']
      (WPath ''/tmp/s.sql'') (WPath ''/tmp/d.sql'') [True] Map.empty)))"
proof -
  let ?P = "run_pass exit_env True 0 [''-d'', ''shop''] (WPath ''/tmp/s.sql'') Map.empty"
  have x: "?P = (fst ?P, fst (snd ?P), snd (snd ?P))" by simp
  have o: "open_writer exit_env (WPath ''/tmp/s.sql'') Map.empty =
      Inr (File ''/tmp/s.sql'', [MkdirAllDirOf ''/tmp/s.sql'', Create ''/tmp/s.sql'', Created ''/tmp/s.sql''],
           [''/tmp/s.sql'' \<mapsto> []])"
    by (simp add: open_writer_def exit_env_def ok_env_def)
  have c: "closable (File ''/tmp/s.sql'')" by simp
  have e: "fst ?P = Some (Plain ''exit status 2: Access denied'')"
    by (simp add: run_pass_def open_writer_def run_cmd_def exit_env_def ok_env_def)
  note th = writers_closed_on_every_exit [where w = "File ''/tmp/s.sql''" and e = exit_env
      and writer = "WPath ''/tmp/s.sql''" and files = Map.empty and rai = True and i = 0
      and args = "[''-d'', ''shop'']" and r = "fst ?P" and evs = "fst (snd ?P)"
      and files' = "snd (snd ?P)" and Charsets = "[''utf8'']" and env = "\<lambda>i. exit_env"
      and cfg = cfg0 and tables = "[''users'']" and structWriter = "WPath ''/tmp/s.sql''"
      and dataWriter = "WPath ''/tmp/d.sql''" and rais = "[True]" and ?files2.0 = Map.empty]
  from th x o c have "CloseWriter (File ''/tmp/s.sql'') \<in> set (fst (snd ?P))" by blast
  moreover from th have "all_closed (fst (snd (Export [''utf8''] (\<lambda>i. exit_env) cfg0 [''users'']
      (WPath ''/tmp/s.sql'') (WPath ''/tmp/d.sql'') [True] Map.empty)))" by (rule conjunct2)
  ultimately show ?thesis using e by (intro conjI)
qed

section \<open>The job registry\<close>

lemma registry_cases:
  "registry st op = Some m \<longleftrightarrow> (\<exists>a. backgrounds st op = Some a \<and> map_at st a = m)"
  by (auto simp: registry_def split: option.splits)

lemmas handler_defs = mySQL_Export_def selected_tables_def new_map_def new_infos_def map_put_def
  map_at_def infos_append_def infos_at_def TempDir_def Join_def new_FileInfo_def
  he0_def rq_inline_def rq_background_def st_init_def we0_def we_zipfail_def OpExport_def
  registry_def job0_def st_running_def

lemmas worker_defs = worker_def measure_info_def FileSize_def remove_all_def map_delete_def

lemma bg_started:
  "mySQL_Export [''utf8''] he0 rq_background st_init = (Started job0, [], st_running)"
  by (simp add: handler_defs InSlice_def Let_def cfg0_def)

lemma bg_export_ok:
  "fst (Export [''utf8''] (\<lambda>i. ok_env) cfg0 [''users'']
      (WPath ''/tmp/dbmanager/cache/export/shop-struct-1700000000.sql'') WNil [True] Map.empty) = None"
  by (simp add: eval_defs)

text \<open>
  Claim C4. A posted export whose fingerprint has an entry in the map registered for the
  export operation is answered with the already-running error; nothing happens (no
  directory, file, writer or subprocess event) and the state, the registry included, is
  the one before the call.
\<close>

theorem duplicate_export_rejected:
  assumes "IsPost rq" and "dbName rq \<noteq> []" and "selected_tables rq = Inr tables"
    and "registry st OpExport = Some m"
    and "m (cacheKey tables (form_output rq) (form_type rq)) = Some fi"
  shows "mySQL_Export Charsets he rq st = (Rejected AlreadyRunning, [], st)"
proof -
  from assms(4) obtain a where a: "backgrounds st OpExport = Some a" "map_at st a = m"
    by (auto simp: registry_cases)
  with assms(1,2,3,5) show ?thesis
    by (simp add: mySQL_Export_def Let_def)
qed

theorem duplicate_export_rejected_witness:
  "mySQL_Export [''utf8''] he0 rq_background st_init = (Started job0, [], st_running) \<and>
   mySQL_Export [''utf8''] he0 rq_background st_running = (Rejected AlreadyRunning, [], st_running)"
proof -
  have t: "selected_tables rq_background = Inr [''users'']"
    by (simp add: selected_tables_def rq_background_def rq_inline_def)
  have p: "IsPost rq_background" "dbName rq_background \<noteq> []"
    by (simp_all add: rq_background_def rq_inline_def)
  have reg: "registry st_running OpExport = Some [cacheKey [''users''] [] [''struct''] \<mapsto> 1]"
    by (simp add: registry_def st_running_def map_at_def)
  have k: "[cacheKey [''users''] [] [''struct''] \<mapsto> 1::nat]
             (cacheKey [''users''] (form_output rq_background) (form_type rq_background)) = Some 1"
    by (simp add: rq_background_def rq_inline_def)
  from duplicate_export_rejected [OF p t reg k] bg_started show ?thesis by (intro conjI)
qed

lemma zipfail_export:
  "Export [''utf8''] (pass_envs we_zipfail) (j_cfg job0) (j_tables job0) (j_structWriter job0)
      (j_dataWriter job0) [True] (disk st_running) =
   (None,
    fst (snd (Export [''utf8''] (pass_envs we_zipfail) (j_cfg job0) (j_tables job0)
      (j_structWriter job0) (j_dataWriter job0) [True] (disk st_running))),
    snd (snd (Export [''utf8''] (pass_envs we_zipfail) (j_cfg job0) (j_tables job0)
      (j_structWriter job0) (j_dataWriter job0) [True] (disk st_running))))"
proof -
  have "fst (Export [''utf8''] (pass_envs we_zipfail) (j_cfg job0) (j_tables job0)
      (j_structWriter job0) (j_dataWriter job0) [True] (disk st_running)) = None"
    using bg_export_ok by (simp add: we_zipfail_def we0_def job0_def st_running_def)
  then show ?thesis by (metis prod.collapse)
qed

text \<open>
  Claim C6. When the dump has succeeded, files were written and the archive cannot be
  made, the worker returns the archiver's error; after the events of the dump come only
  the call of the archiver and the log line (no file is removed, no manifest is written);
  every file but the archive itself is as the dump left it; and the registry is unchanged,
  so the entry of the fingerprint stays in place.
\<close>

theorem zip_failure_keeps_artifacts:
  assumes "Export Charsets (pass_envs we) (j_cfg j) (j_tables j) (j_structWriter j)
             (j_dataWriter j) [True] (disk st) = (None, evs, d1)"
    and "j_sqlFiles j \<noteq> []" and "zip_err we = Some m"
    and "worker Charsets we j st = (r, evs', st')"
  shows "r = Some (Plain m) \<and>
         evs' = evs @ [ZipMake (j_zipFile j) (j_sqlFiles j), LogError (Plain m)] \<and>
         backgrounds st' = backgrounds st \<and> go_maps st' = go_maps st \<and>
         registry st' = registry st \<and>
         (\<forall>p. p \<noteq> j_zipFile j \<longrightarrow> disk st' p = d1 p)"
proof -
  from assms have w: "r = Some (Plain m)"
      "evs' = evs @ [ZipMake (j_zipFile j) (j_sqlFiles j), LogError (Plain m)]"
      "st' = st\<lparr>disk := (case zip_left we of None \<Rightarrow> d1 | Some b \<Rightarrow> d1(j_zipFile j \<mapsto> b)),
                 infos := (infos st)(j_fileInfos j \<mapsto>
                                     map (measure_info (worker_now we) d1) (infos_at st (j_fileInfos j)))\<rparr>"
    by (auto simp: worker_def Let_def)
  have "registry st' = registry st"
    by (rule ext) (simp add: w(3) registry_def map_at_def split: option.splits)
  with w show ?thesis by (auto split: option.splits)
qed

theorem zip_failure_keeps_artifacts_witness:
  "fst (worker [''utf8''] we_zipfail job0 st_running) = Some (Plain ''no space left on device'') \<and>
   registry (snd (snd (worker [''utf8''] we_zipfail job0 st_running))) OpExport =
     Some [cacheKey [''users''] [] [''struct''] \<mapsto> 1] \<and>
   disk (snd (snd (worker [''utf8''] we_zipfail job0 st_running)))
       ''/tmp/dbmanager/cache/export/shop-sql-1700000000.zip.txt'' = None"
proof -
  let ?W = "worker [''utf8''] we_zipfail job0 st_running"
  have s: "j_sqlFiles job0 \<noteq> []" by (simp add: job0_def)
  have z: "zip_err we_zipfail = Some ''no space left on device''" by (simp add: we_zipfail_def we0_def)
  have w: "?W = (fst ?W, fst (snd ?W), snd (snd ?W))" by simp
  note th = zip_failure_keeps_artifacts [OF zipfail_export s z w]
  have reg: "registry st_running OpExport = Some [cacheKey [''users''] [] [''struct''] \<mapsto> 1]"
    by (simp add: registry_def st_running_def map_at_def)
  from th have 1: "fst ?W = Some (Plain ''no space left on device'')" by simp
  from th have "registry (snd (snd ?W)) = registry st_running" by simp
  with reg have 2: "registry (snd (snd ?W)) OpExport = Some [cacheKey [''users''] [] [''struct''] \<mapsto> 1]"
    by simp
  have ne: "''/tmp/dbmanager/cache/export/shop-sql-1700000000.zip.txt'' \<noteq> j_zipFile job0"
    by (simp add: job0_def)
  have d: "snd (snd (Export [''utf8''] (pass_envs we_zipfail) (j_cfg job0) (j_tables job0)
      (j_structWriter job0) (j_dataWriter job0) [True] (disk st_running)))
       ''/tmp/dbmanager/cache/export/shop-sql-1700000000.zip.txt'' = None"
    by (simp add: eval_defs we_zipfail_def we0_def job0_def st_running_def)
  from th ne have "disk (snd (snd ?W)) ''/tmp/dbmanager/cache/export/shop-sql-1700000000.zip.txt'' =
     snd (snd (Export [''utf8''] (pass_envs we_zipfail) (j_cfg job0) (j_tables job0)
      (j_structWriter job0) (j_dataWriter job0) [True] (disk st_running)))
       ''/tmp/dbmanager/cache/export/shop-sql-1700000000.zip.txt''"
    by blast
  with d have 3: "disk (snd (snd ?W)) ''/tmp/dbmanager/cache/export/shop-sql-1700000000.zip.txt'' = None"
    by simp
  from 1 2 3 show ?thesis by (intro conjI)
qed

lemma bg_worker_result:
  "fst (worker [''utf8''] we0 job0 st_running) = None"
  "backgrounds st_idle = [OpExport \<mapsto> 0]"
  "go_maps st_idle = [0 \<mapsto> Map.empty]"
  "next_addr st_idle = 2"
  by (simp_all add: st_idle_def worker_defs eval_defs Let_def we0_def job0_def st_running_def
        map_at_def infos_append_def infos_at_def OpExport_def)

lemma inline_result:
  "mySQL_Export [''utf8''] he0 rq_inline st_idle =
     (Finished None,
      [SetContentDisposition ''shop-sql-1700000000.sql'', LogStarting [''users''], StdoutPipe,
       CmdStart [''--default-character-set=utf8'', ''--single-transaction'', ''--set-gtid-purged=OFF'',
         ''--no-autocommit'', ''--opt'', ''-d'', ''-hdb'', ''-P3307'', ''-uroot'', ''-psecret'', ''shop'',
         ''users''],
       Copy (Stream 0 False) ''CREATE TABLE t (id int) AUTO_INCREMENT=7 CHARSET=utf8;'',
       CmdWait, CloseStdout],
      st_idle\<lparr>infos := (infos st_idle)(2 \<mapsto> []), next_addr := 3,
         go_maps := [0 \<mapsto> [cacheKey [''users''] ''down'' [''struct''] \<mapsto> 2]]\<rparr>)"
  by (simp add: mySQL_Export_def selected_tables_def new_infos_def map_put_def map_at_def
        TempDir_def Join_def he0_def rq_inline_def we0_def worker_def eval_defs bg_worker_result)

text \<open>
  Claim C8 does not hold of the code. A background export from the initial state stores
  the export map in the registry and, when it has succeeded, removes its key from it. An
  inline download after that creates no file and succeeds, but the entry it has put into
  the stored map is never removed: the registry holds it after the call has returned, and
  the same request, sent again, is rejected as already running.
\<close>

theorem inline_export_leaves_registry_entry:
  "mySQL_Export [''utf8''] he0 rq_background st_init = (Started job0, [], st_running) \<and>
   worker [''utf8''] we0 job0 st_running = (None, fst (snd (worker [''utf8''] we0 job0 st_running)), st_idle) \<and>
   registry st_idle OpExport = Some Map.empty \<and>
   fst (mySQL_Export [''utf8''] he0 rq_inline st_idle) = Finished None \<and>
   fst (snd (mySQL_Export [''utf8''] he0 rq_inline st_idle)) =
     [SetContentDisposition ''shop-sql-1700000000.sql'', LogStarting [''users''], StdoutPipe,
      CmdStart [''--default-character-set=utf8'', ''--single-transaction'', ''--set-gtid-purged=OFF'',
        ''--no-autocommit'', ''--opt'', ''-d'', ''-hdb'', ''-P3307'', ''-uroot'', ''-psecret'', ''shop'',
        ''users''],
      Copy (Stream 0 False) ''CREATE TABLE t (id int) AUTO_INCREMENT=7 CHARSET=utf8;'',
      CmdWait, CloseStdout] \<and>
   registry (snd (snd (mySQL_Export [''utf8''] he0 rq_inline st_idle))) OpExport =
     Some [cacheKey [''users''] ''down'' [''struct''] \<mapsto> 2] \<and>
   fst (mySQL_Export [''utf8''] he0 rq_inline (snd (snd (mySQL_Export [''utf8''] he0 rq_inline st_idle)))) =
     Rejected AlreadyRunning"
proof -
  let ?st = "st_idle\<lparr>infos := (infos st_idle)(2 \<mapsto> []), next_addr := 3,
         go_maps := [0 \<mapsto> [cacheKey [''users''] ''down'' [''struct''] \<mapsto> 2]]\<rparr>"
  have 2: "worker [''utf8''] we0 job0 st_running =
      (None, fst (snd (worker [''utf8''] we0 job0 st_running)), st_idle)"
    using bg_worker_result(1) unfolding st_idle_def by (metis prod.collapse)
  have 3: "registry st_idle OpExport = Some Map.empty"
    by (simp add: registry_def map_at_def bg_worker_result)
  have 6: "registry ?st OpExport = Some [cacheKey [''users''] ''down'' [''struct''] \<mapsto> 2]"
    by (simp add: registry_def map_at_def bg_worker_result)
  have 7: "fst (mySQL_Export [''utf8''] he0 rq_inline ?st) = Rejected AlreadyRunning"
    by (simp add: mySQL_Export_def selected_tables_def map_at_def rq_inline_def bg_worker_result)
  show ?thesis
    using bg_started 2 3 6 7 by (simp add: inline_result)
qed

section \<open>The fingerprint\<close>

lemma upt_64:
  "[0..<64] =
     [0, 1, 2, 3, 4, 5, 6, 7, 8, 9, 10, 11, 12, 13, 14, 15, 16, 17, 18, 19, 20, 21, 22, 23, 24, 25,
      26, 27, 28, 29, 30, 31, 32, 33, 34, 35, 36, 37, 38, 39, 40, 41, 42, 43, 44, 45, 46, 47, 48,
      49, 50, 51, 52, 53, 54, 55, 56, 57, 58, 59, 60, 61, 62, 63 :: nat]"
  by (simp add: upt_rec)

lemmas md5_eval = md5_compress_def upt_64 md5_step_def md5_K_def md5_s_def Let_def rotl_def


text \<open>The model of MD5 on the test vector \<open>abc\<close> of RFC 1321.\<close>

lemma blocks_abc:
  "md5_blocks (''abc'') =
     [[2153996897, 0, 0, 0, 0, 0, 0, 0,
      0, 0, 0, 0, 0, 0, 24, 0]]"
  by code_simp

lemma compress_abc:
  "md5_compress (0x67452301, 0xefcdab89, 0x98badcfe, 0x10325476)
     [2153996897, 0, 0, 0, 0, 0, 0, 0,
      0, 0, 0, 0, 0, 0, 24, 0] =
   (2555380112, 2958021180, 2101319382, 1920983336)"
  by (simp add: md5_eval)

lemma Md5_abc: "Md5 ''abc'' = ''900150983cd24fb0d6963f7d28e17f72''"
  by (simp add: Md5_def md5_sum_def hex_le_def hex_digit_def blocks_abc compress_abc)

text \<open>The dump of two requests that differ in the order of their tables, and their keys.\<close>

lemma dump_ab:
  "Dump [''a'', ''b''] [] [''data''] =
    [CHR ''['', CHR 0x0A, CHR '' '', CHR '' '', CHR ''['', CHR 0x0A, CHR '' '', CHR '' '',
     CHR '' '', CHR '' '', CHR 0x22, CHR ''a'', CHR 0x22, CHR '','', CHR 0x0A, CHR '' '',
     CHR '' '', CHR '' '', CHR '' '', CHR 0x22, CHR ''b'', CHR 0x22, CHR 0x0A, CHR '' '',
     CHR '' '', CHR '']'', CHR '','', CHR 0x0A, CHR '' '', CHR '' '', CHR 0x22, CHR 0x22,
     CHR '','', CHR 0x0A, CHR '' '', CHR '' '', CHR ''['', CHR 0x0A, CHR '' '', CHR '' '',
     CHR '' '', CHR '' '', CHR 0x22, CHR ''d'', CHR ''a'', CHR ''t'', CHR ''a'', CHR 0x22,
     CHR 0x0A, CHR '' '', CHR '' '', CHR '']'', CHR 0x0A, CHR '']'']"
  by code_simp




lemma dump_ba:
  "Dump [''b'', ''a''] [] [''data''] =
    [CHR ''['', CHR 0x0A, CHR '' '', CHR '' '', CHR ''['', CHR 0x0A, CHR '' '', CHR '' '',
     CHR '' '', CHR '' '', CHR 0x22, CHR ''b'', CHR 0x22, CHR '','', CHR 0x0A, CHR '' '',
     CHR '' '', CHR '' '', CHR '' '', CHR 0x22, CHR ''a'', CHR 0x22, CHR 0x0A, CHR '' '',
     CHR '' '', CHR '']'', CHR '','', CHR 0x0A, CHR '' '', CHR '' '', CHR 0x22, CHR 0x22,
     CHR '','', CHR 0x0A, CHR '' '', CHR '' '', CHR ''['', CHR 0x0A, CHR '' '', CHR '' '',
     CHR '' '', CHR '' '', CHR 0x22, CHR ''d'', CHR ''a'', CHR ''t'', CHR ''a'', CHR 0x22,
     CHR 0x0A, CHR '' '', CHR '' '', CHR '']'', CHR 0x0A, CHR '']'']"
  by code_simp





subsection \<open>The dump determines its arguments\<close>















end
